theory Spec2Isabelle
  imports Main "HOL-Library.Sublist"
begin

section \<open>JavaScript values\<close>

text \<open>
  The error serializer accepts a value of type \<open>unknown\<close>.  Such values are modelled by
  plain data: the primitives and objects given by their list of properties (a key listed
  twice is read at its first occurrence).  Numbers are modelled by integers, with
  \<open>NaN\<close> apart (no fractions, no infinities, no rounding: the safe integers);
  a character of a \<open>string\<close> stands for one UTF-16 code unit.
\<close>

datatype jsnum = NaN | Num int

datatype jsval =
    JUndefined
  | JNull
  | JBool bool
  | JNumber jsnum
  | JString string
  | JObject "(string \<times> jsval) list"

text \<open>Truthiness, as tested by \<open>if (v)\<close>, \<open>v || d\<close> and \<open>v ? a : b\<close>.\<close>

fun truthy :: "jsval \<Rightarrow> bool" where
  "truthy JUndefined = False"
| "truthy JNull = False"
| "truthy (JBool b) = b"
| "truthy (JNumber NaN) = False"
| "truthy (JNumber (Num n)) = (n \<noteq> 0)"
| "truthy (JString s) = (s \<noteq> [])"
| "truthy (JObject fs) = True"

text \<open>Reading a property \<open>v.k\<close> of a value that is known not to be null or undefined.\<close>

fun getProp :: "jsval \<Rightarrow> string \<Rightarrow> jsval" where
  "getProp (JObject fs) k = (case map_of fs k of None \<Rightarrow> JUndefined | Some v \<Rightarrow> v)"
| "getProp v k = JUndefined"

text \<open>Decimal digits of an integer.\<close>

fun showNat :: "nat \<Rightarrow> string" where
  "showNat n =
     (if n < 10 then [char_of (48 + n)]
      else showNat (n div 10) @ [char_of (48 + n mod 10)])"

declare showNat.simps [simp del]

definition showInt :: "int \<Rightarrow> string" where
  "showInt i = (if i < 0 then CHR ''-'' # showNat (nat (- i)) else showNat (nat i))"

text \<open>
  The string form of a value inside a template literal, as the message format uses it for
  an error code (declared \<open>string | number\<close>): integers print in decimal, as those
  below \<open>10^21\<close> in absolute value do.
\<close>

fun String_js :: "jsval \<Rightarrow> string" where
  "String_js JUndefined = ''undefined''"
| "String_js JNull = ''null''"
| "String_js (JBool b) = (if b then ''true'' else ''false'')"
| "String_js (JNumber NaN) = ''NaN''"
| "String_js (JNumber (Num n)) = showInt n"
| "String_js (JString s) = s"
| "String_js (JObject fs) = ''[object Object]''"

section \<open>Validation: \<open>isErrorLike\<close>\<close>

text \<open>
  \<^verbatim>\<open>value !== null && typeof value === 'object' && 'message' in value &&
  typeof value.message === 'string'\<close>
\<close>

fun isErrorLike :: "jsval \<Rightarrow> bool" where
  "isErrorLike (JObject fs) =
     (case map_of fs ''message'' of Some (JString m) \<Rightarrow> True | _ \<Rightarrow> False)"
| "isErrorLike v = False"

section \<open>Truncation utilities\<close>

text \<open>
  \<^verbatim>\<open>if (!str || str.length <= limit) return str;
  return str.substring(0, limit - 3) + '...';\<close>
  \<open>substring(0, n)\<close> with a negative \<open>n\<close> is the empty string, as \<open>take (nat n)\<close> is.
\<close>

definition truncateString :: "string \<Rightarrow> int \<Rightarrow> string" where
  "truncateString str limit =
     (if str = [] \<or> int (length str) \<le> limit then str
      else take (nat (limit - 3)) str @ ''...'')"

section \<open>Errors raised by implicit conversions\<close>

text \<open>
  The serializer reads values of unknown type.  Two of its operations raise a
  \<open>TypeError\<close> on some of them: \<open>String(v)\<close> and the method call
  \<open>str.substring(...)\<close> of \<open>truncateString\<close>.  Objects are plain objects: they
  inherit from \<open>Object.prototype\<close> and hold data properties only, so an own property
  named \<open>toString\<close>, \<open>valueOf\<close> or \<open>substring\<close> is never callable.
\<close>

datatype exn = TypeError

text \<open>
  \<open>String(v)\<close>.  For an object the conversion calls \<open>toString\<close>, then \<open>valueOf\<close>:
  with an own (data) property \<open>toString\<close> neither call yields a primitive and the
  conversion throws; otherwise the inherited \<open>toString\<close> answers.  The digits of a
  number are those of the builtin conversion \<open>N\<close>.
\<close>

fun ToString :: "(int \<Rightarrow> string) \<Rightarrow> jsval \<Rightarrow> exn + string" where
  "ToString N JUndefined = Inr ''undefined''"
| "ToString N JNull = Inr ''null''"
| "ToString N (JBool b) = Inr (if b then ''true'' else ''false'')"
| "ToString N (JNumber NaN) = Inr ''NaN''"
| "ToString N (JNumber (Num n)) = Inr (N n)"
| "ToString N (JString s) = Inr s"
| "ToString N (JObject fs) =
     (if map_of fs ''toString'' = None then Inr ''[object Object]'' else Inl TypeError)"

text \<open>
  \<open>len <= limit\<close> for the \<open>length\<close> property of a value that is not a string; the
  property is converted to a number (a string by the builtin conversion \<open>toNum\<close>, an
  object to \<open>NaN\<close> or not at all), and a comparison with \<open>NaN\<close> is false.
\<close>

definition lengthWithin :: "(string \<Rightarrow> jsnum) \<Rightarrow> jsval \<Rightarrow> int \<Rightarrow> bool" where
  "lengthWithin toNum len limit =
     (case len of
        JNumber (Num n) \<Rightarrow> n \<le> limit
      | JNull \<Rightarrow> 0 \<le> limit
      | JBool b \<Rightarrow> (if b then 1 else 0) \<le> limit
      | JString s \<Rightarrow> (case toNum s of Num n \<Rightarrow> n \<le> limit | NaN \<Rightarrow> False)
      | _ \<Rightarrow> False)"

text \<open>
  \<open>truncateString\<close> called with a value of any type, as it is for a stack: a falsy
  value is returned as it is; a string is truncated; any other value is returned as it is
  when its \<open>length\<close> is within the limit, and otherwise \<open>str.substring\<close> is not a
  function and the call throws.
\<close>

definition truncateString_any :: "(string \<Rightarrow> jsnum) \<Rightarrow> jsval \<Rightarrow> int \<Rightarrow> exn + jsval" where
  "truncateString_any toNum str limit =
     (case str of
        JString s \<Rightarrow> Inr (JString (truncateString s limit))
      | JObject fs \<Rightarrow>
          if lengthWithin toNum (getProp str ''length'') limit then Inr str else Inl TypeError
      | _ \<Rightarrow> if truthy str then Inl TypeError else Inr str)"

section \<open>Error serialization\<close>

record SerializationLimits =
  stackLimit :: int
  responseDataLimit :: int
  causeMaxDepth :: int

definition DEFAULT_LIMITS :: SerializationLimits where
  "DEFAULT_LIMITS = \<lparr>stackLimit = 1000, responseDataLimit = 500, causeMaxDepth = 3\<rparr>"

text \<open>
  The object returned by the library function \<open>serializeError\<close> of the package
  \<open>serialize-error\<close>, imported as \<open>baseSerializeError\<close>: the properties the source
  reads, \<open>JUndefined\<close> for a missing one.
\<close>

record serialized =
  s_name :: jsval
  s_message :: jsval
  s_stack :: jsval
  s_code :: jsval
  s_cause :: jsval
  s_response :: jsval

text \<open>
  What the serializer takes from outside the repository: the library function and the
  builtins \<open>Number.prototype.toString\<close>, the conversion of a string to a number, and
  \<open>JSON.stringify\<close> (\<open>None\<close> when it throws).
\<close>

record Runtime =
  baseSerializeError :: "jsval \<Rightarrow> serialized"
  numberToString :: "int \<Rightarrow> string"
  stringToNumber :: "string \<Rightarrow> jsnum"
  JSON_stringify :: "jsval \<Rightarrow> string option"

text \<open>
  On plain data the library returns a deep copy of its argument: every property has the
  value it had.  The copy is made by a recursion (\<open>destroyCircular\<close>) that visits the
  argument and every object nested in it; \<open>libraryWalk\<close> lists the objects visited.
\<close>

definition plainSerialize :: "jsval \<Rightarrow> serialized" where
  "plainSerialize v =
     \<lparr>s_name = getProp v ''name'',
      s_message = getProp v ''message'',
      s_stack = getProp v ''stack'',
      s_code = getProp v ''code'',
      s_cause = getProp v ''cause'',
      s_response = getProp v ''response''\<rparr>"

fun libraryWalk :: "jsval \<Rightarrow> jsval list" where
  "libraryWalk (JObject fs) = JObject fs # concat (map (\<lambda>kv. libraryWalk (snd kv)) fs)"
| "libraryWalk v = []"

text \<open>
  \<open>stringifyAndTruncate\<close>; when \<open>JSON.stringify\<close> throws the source falls back to
  \<open>String(value)\<close>, which may throw in its turn.
\<close>

definition stringifyAndTruncate :: "Runtime \<Rightarrow> jsval \<Rightarrow> int \<Rightarrow> exn + string" where
  "stringifyAndTruncate R v limit =
     (case v of
        JUndefined \<Rightarrow> Inr ''undefined''
      | JNull \<Rightarrow> Inr ''null''
      | JString s \<Rightarrow> Inr (truncateString s limit)
      | JObject fs \<Rightarrow>
          (case JSON_stringify R v of
             Some s \<Rightarrow> Inr (truncateString s limit)
           | None \<Rightarrow>
               (case ToString (numberToString R) v of
                  Inl e \<Rightarrow> Inl e
                | Inr s \<Rightarrow> Inr (truncateString s limit)))
      | _ \<Rightarrow>
          (case ToString (numberToString R) v of
             Inl e \<Rightarrow> Inl e
           | Inr s \<Rightarrow> Inr (truncateString s limit)))"

record HttpDetails =
  status :: jsval
  statusText :: jsval
  data :: "string option"

text \<open>
  \<open>ErrorObject\<close> as the types declare it; this is how the transport reads the error of
  a log entry.
\<close>

datatype ErrorObject = ErrorObject
  (err_name: "string option")
  (err_message: string)
  (err_stack: "string option")
  (err_code: "jsval option")
  (err_cause: "ErrorObject option")
  (err_response: "HttpDetails option")

text \<open>\<open>v || d\<close> on an optional string.\<close>

definition orElse :: "string option \<Rightarrow> string \<Rightarrow> string" where
  "orElse v d = (case v of None \<Rightarrow> d | Some s \<Rightarrow> if s = [] then d else s)"

text \<open>
  The object \<open>serializeError\<close> builds at run time.  Its \<open>name\<close>, \<open>stack\<close> and
  \<open>code\<close> hold what the library returned, of whatever type; an optional field is
  \<open>None\<close> when the source does not set it.
\<close>

datatype SerializedError = SerializedError
  (se_name: jsval)
  (se_message: jsval)
  (se_stack: "jsval option")
  (se_code: "jsval option")
  (se_cause: "SerializedError option")
  (se_response: "HttpDetails option")

definition depthSentinel :: SerializedError where
  "depthSentinel =
     SerializedError (JString ''DepthLimitError'') (JString ''[Max Cause Depth Reached]'')
       None None None None"

text \<open>\<open>{message: String(v), name: n}\<close>, for a value that is not error-like.\<close>

definition unknownNode :: "Runtime \<Rightarrow> string \<Rightarrow> jsval \<Rightarrow> exn + SerializedError" where
  "unknownNode R n v =
     (case ToString (numberToString R) v of
        Inl e \<Rightarrow> Inl e
      | Inr s \<Rightarrow> Inr (SerializedError (JString n) (JString s) None None None None))"

text \<open>\<open>serialized.message || d\<close>.\<close>

definition orDefault :: "jsval \<Rightarrow> string \<Rightarrow> jsval" where
  "orDefault v d = (if truthy v then v else JString d)"

text \<open>\<open>if (serialized.stack) obj.stack = truncateString(serialized.stack, limit)\<close>.\<close>

definition stackOf :: "Runtime \<Rightarrow> jsval \<Rightarrow> int \<Rightarrow> exn + jsval option" where
  "stackOf R st limit =
     (if truthy st then
        (case truncateString_any (stringToNumber R) st limit of
           Inl e \<Rightarrow> Inl e
         | Inr v \<Rightarrow> Inr (Some v))
      else Inr None)"

text \<open>\<open>if ('code' in serialized && serialized.code !== undefined) obj.code = ...\<close>.\<close>

definition codeOf :: "jsval \<Rightarrow> jsval option" where
  "codeOf c = (case c of JUndefined \<Rightarrow> None | _ \<Rightarrow> Some c)"

text \<open>
  The object literal and the assignments that follow it, given the outcome of
  serializing the cause and the response; the first error raised is the outcome.
\<close>

definition buildNode ::
  "Runtime \<Rightarrow> serialized \<Rightarrow> string \<Rightarrow> int \<Rightarrow> exn + SerializedError option
     \<Rightarrow> exn + HttpDetails option \<Rightarrow> exn + SerializedError" where
  "buildNode R s d limit causeResult responseResult =
     (case stackOf R (s_stack s) limit of
        Inl e \<Rightarrow> Inl e
      | Inr st \<Rightarrow>
          (case causeResult of
             Inl e \<Rightarrow> Inl e
           | Inr c \<Rightarrow>
               (case responseResult of
                  Inl e \<Rightarrow> Inl e
                | Inr r \<Rightarrow>
                    Inr (SerializedError (s_name s) (orDefault (s_message s) d) st
                           (codeOf (s_code s)) c r))))"

function serializeCause ::
  "Runtime \<Rightarrow> jsval \<Rightarrow> int \<Rightarrow> int \<Rightarrow> SerializationLimits \<Rightarrow> exn + SerializedError" where
  "serializeCause R cause maxDepth currentDepth limits =
     (if currentDepth > maxDepth then Inr depthSentinel
      else if \<not> isErrorLike cause then unknownNode R ''UnknownCause'' cause
      else
        buildNode R (baseSerializeError R cause) ''Unknown cause'' (stackLimit limits)
          (if truthy (s_cause (baseSerializeError R cause))
           then (case serializeCause R (s_cause (baseSerializeError R cause)) maxDepth
                        (currentDepth + 1) limits of
                   Inl e \<Rightarrow> Inl e
                 | Inr c \<Rightarrow> Inr (Some c))
           else Inr None)
          (Inr None))"
  by pat_completeness auto
termination
  by (relation "measure (\<lambda>(R, cause, maxDepth, currentDepth, limits).
        nat (maxDepth + 1 - currentDepth))") auto

declare serializeCause.simps [simp del]

definition responseDetails :: "Runtime \<Rightarrow> jsval \<Rightarrow> int \<Rightarrow> exn + HttpDetails option" where
  "responseDetails R r limit =
     (case r of
        JObject fs \<Rightarrow>
          (if truthy (getProp r ''data'') then
             (case stringifyAndTruncate R (getProp r ''data'') limit of
                Inl e \<Rightarrow> Inl e
              | Inr s \<Rightarrow>
                  Inr (Some \<lparr>status = getProp r ''status'',
                             statusText = getProp r ''statusText'', data = Some s\<rparr>))
           else
             Inr (Some \<lparr>status = getProp r ''status'',
                        statusText = getProp r ''statusText'', data = None\<rparr>))
      | _ \<Rightarrow> Inr None)"

definition serializeError ::
  "Runtime \<Rightarrow> jsval \<Rightarrow> SerializationLimits \<Rightarrow> exn + SerializedError" where
  "serializeError R error limits =
     (if \<not> isErrorLike error then unknownNode R ''UnknownError'' error
      else
        buildNode R (baseSerializeError R error) ''Unknown error'' (stackLimit limits)
          (if truthy (s_cause (baseSerializeError R error))
           then (case serializeCause R (s_cause (baseSerializeError R error))
                        (causeMaxDepth limits) 1 limits of
                   Inl e \<Rightarrow> Inl e
                 | Inr c \<Rightarrow> Inr (Some c))
           else Inr None)
          (responseDetails R (s_response (baseSerializeError R error))
             (responseDataLimit limits)))"

text \<open>Measures on the two sides of the serializer, used to state its depth bound.\<close>

fun chainLength :: "SerializedError \<Rightarrow> nat" where
  "chainLength (SerializedError n m s c cause r) =
     (case cause of None \<Rightarrow> 0 | Some e \<Rightarrow> Suc (chainLength e))"

fun nthCause :: "SerializedError \<Rightarrow> nat \<Rightarrow> SerializedError option" where
  "nthCause e 0 = Some e"
| "nthCause e (Suc k) = (case se_cause e of None \<Rightarrow> None | Some c \<Rightarrow> nthCause c k)"

text \<open>
  The \<open>k\<close>-th cause of the input, as the serializer follows it: through error-like values
  whose serialized \<open>cause\<close> is truthy.
\<close>

fun inputCause :: "Runtime \<Rightarrow> jsval \<Rightarrow> nat \<Rightarrow> jsval option" where
  "inputCause R v 0 = Some v"
| "inputCause R v (Suc k) =
     (if isErrorLike v \<and> truthy (s_cause (baseSerializeError R v))
      then inputCause R (s_cause (baseSerializeError R v)) k
      else None)"

text \<open>
  A value of the chain can be read when the conversion the serializer applies to it does
  not throw: the truncation of its stack when it is error-like, \<open>String\<close> otherwise.
\<close>

definition causeReadable :: "Runtime \<Rightarrow> SerializationLimits \<Rightarrow> jsval \<Rightarrow> bool" where
  "causeReadable R limits c =
     (if isErrorLike c
      then \<not> isl (stackOf R (s_stack (baseSerializeError R c)) (stackLimit limits))
      else \<not> isl (ToString (numberToString R) c))"

section \<open>Rate limiter\<close>

text \<open>Comparison and arithmetic of numbers; every comparison with \<open>NaN\<close> is false.\<close>

fun js_le :: "jsnum \<Rightarrow> jsnum \<Rightarrow> bool" where
  "js_le (Num a) (Num b) = (a \<le> b)"
| "js_le a b = False"

fun js_add :: "jsnum \<Rightarrow> jsnum \<Rightarrow> jsnum" where
  "js_add (Num a) (Num b) = Num (a + b)"
| "js_add a b = NaN"

fun js_sub :: "jsnum \<Rightarrow> jsnum \<Rightarrow> jsnum" where
  "js_sub (Num a) (Num b) = Num (a - b)"
| "js_sub a b = NaN"

fun js_mul :: "jsnum \<Rightarrow> jsnum \<Rightarrow> jsnum" where
  "js_mul (Num a) (Num b) = Num (a * b)"
| "js_mul a b = NaN"

fun Math_max :: "jsnum \<Rightarrow> jsnum \<Rightarrow> jsnum" where
  "Math_max (Num a) (Num b) = Num (max a b)"
| "Math_max a b = NaN"

record RateLimitState =
  remaining :: jsnum
  resetAt :: jsnum
  isLimited :: bool
  retryAfter :: jsnum

type_synonym limiter = "string \<rightharpoonup> RateLimitState"

definition defaultLimit :: int where
  "defaultLimit = 30"

text \<open>
  The builtins \<open>parseInt(s, 10)\<close> and \<open>parseFloat(s)\<close> are parameters of the model.
\<close>

record Builtins =
  parseInt :: "string \<Rightarrow> jsnum"
  parseFloat :: "string \<Rightarrow> jsnum"

text \<open>
  \<open>isRateLimited\<close> mutates the stored state; the model returns the answer and the new
  map.  \<open>now\<close> is the value of \<open>Date.now()\<close>.
\<close>

definition isRateLimited :: "limiter \<Rightarrow> int \<Rightarrow> string \<Rightarrow> bool \<times> limiter" where
  "isRateLimited rl now webhookUrl =
     (case rl webhookUrl of
        None \<Rightarrow> (False, rl)
      | Some state \<Rightarrow>
          (let state' =
                 (if isLimited state \<and> js_le (resetAt state) (Num now)
                  then state\<lparr>isLimited := False, remaining := Num defaultLimit\<rparr>
                  else state)
           in (isLimited state' \<or> js_le (remaining state') (Num 0),
               rl(webhookUrl \<mapsto> state'))))"

definition getWaitTime :: "limiter \<Rightarrow> int \<Rightarrow> string \<Rightarrow> jsnum" where
  "getWaitTime rl now webhookUrl =
     (case rl webhookUrl of
        None \<Rightarrow> Num 0
      | Some state \<Rightarrow>
          if isLimited state then Math_max (Num 0) (js_sub (resetAt state) (Num now))
          else if js_le (remaining state) (Num 0)
          then Math_max (Num 0) (js_sub (resetAt state) (Num now))
          else Num 0)"

text \<open>A header \<open>headers[k]\<close> that is present and not the empty string.\<close>

definition header :: "(string \<rightharpoonup> string) \<Rightarrow> string \<Rightarrow> string option" where
  "header headers k = (case headers k of None \<Rightarrow> None | Some s \<Rightarrow> if s = [] then None else Some s)"

definition recordSuccess ::
  "Builtins \<Rightarrow> limiter \<Rightarrow> int \<Rightarrow> string \<Rightarrow> (string \<rightharpoonup> string) \<Rightarrow> limiter" where
  "recordSuccess P rl now webhookUrl headers =
     (let remaining' = (case header headers ''x-ratelimit-remaining'' of
                          Some s \<Rightarrow> parseInt P s
                        | None \<Rightarrow> Num (defaultLimit - 1));
          resetAfter = (case header headers ''x-ratelimit-reset-after'' of
                          Some s \<Rightarrow> parseFloat P s
                        | None \<Rightarrow> Num 2);
          resetAt' = js_add (Num now) (js_mul resetAfter (Num 1000))
      in rl(webhookUrl \<mapsto>
           \<lparr>remaining = remaining', resetAt = resetAt', isLimited = False, retryAfter = Num 0\<rparr>))"

definition recordRateLimit :: "limiter \<Rightarrow> int \<Rightarrow> string \<Rightarrow> int \<Rightarrow> limiter" where
  "recordRateLimit rl now webhookUrl retryAfter' =
     rl(webhookUrl \<mapsto>
       \<lparr>remaining = Num 0, resetAt = Num (now + retryAfter' * 1000), isLimited = True,
        retryAfter = Num retryAfter'\<rparr>)"

definition reset :: "limiter \<Rightarrow> string \<Rightarrow> limiter" where
  "reset rl webhookUrl = rl(webhookUrl := None)"

definition resetAll :: "limiter \<Rightarrow> limiter" where
  "resetAll rl = Map.empty"

text \<open>
  A parser for the concrete runs below: it agrees with both builtins on nonempty strings
  of decimal digits and answers \<open>NaN\<close> elsewhere.
\<close>

definition digitOf :: "char \<Rightarrow> nat option" where
  "digitOf c = (let n = (of_char c :: nat) in if 48 \<le> n \<and> n \<le> 57 then Some (n - 48) else None)"

fun parseDigits :: "string \<Rightarrow> nat \<Rightarrow> nat option" where
  "parseDigits [] acc = Some acc"
| "parseDigits (c # cs) acc =
     (case digitOf c of None \<Rightarrow> None | Some d \<Rightarrow> parseDigits cs (10 * acc + d))"

definition parseDecimal :: "string \<Rightarrow> jsnum" where
  "parseDecimal s =
     (if s = [] then NaN
      else case parseDigits s 0 of None \<Rightarrow> NaN | Some n \<Rightarrow> Num (int n))"

definition decimalBuiltins :: Builtins where
  "decimalBuiltins = \<lparr>parseInt = parseDecimal, parseFloat = parseDecimal\<rparr>"

section \<open>Discord webhook transport\<close>

subsection \<open>Log entries and message formatting\<close>

datatype LogLevel = Silly | Debug | Info | Warn | Error

fun levelName :: "LogLevel \<Rightarrow> string" where
  "levelName Silly = ''silly''"
| "levelName Debug = ''debug''"
| "levelName Info = ''info''"
| "levelName Warn = ''warn''"
| "levelName Error = ''error''"

text \<open>\<open>toUpperCase\<close> on the letters a to z (the level names have no other letters).\<close>

definition upperChar :: "char \<Rightarrow> char" where
  "upperChar c =
     (let n = (of_char c :: nat) in if 97 \<le> n \<and> n \<le> 122 then char_of (n - 32) else c)"

definition toUpperCase :: "string \<Rightarrow> string" where
  "toUpperCase s = map upperChar s"

record LogEntry =
  timestamp :: string
  level :: LogLevel
  origin :: string
  entryIdentifier :: string
  sendDiscordWebhook :: jsval
  message :: string
  service :: string
  sessionID :: "string option"
  errorID :: "string option"
  error :: "ErrorObject option"
  comment :: "string option"
  meta :: "jsval option"

text \<open>
  The two emoji of the message format are two UTF-16 code units each; they are written
  as two-character placeholders, which keeps every \<open>length\<close> as the source counts it.
\<close>

definition speechBalloon :: string where
  "speechBalloon = [CHR 0xD8, CHR 0xAC]"

definition policeLight :: string where
  "policeLight = [CHR 0xD8, CHR 0xA8]"

fun join :: "string list \<Rightarrow> string \<Rightarrow> string" where
  "join [] sep = []"
| "join [x] sep = x"
| "join (x # y # ys) sep = x @ sep @ join (y # ys) sep"

record DiscordWebhookTransport =
  webhookUrls :: "string list"
  maxRetries :: int
  retryDelay :: int
  maxMessageLength :: int

record DiscordTransportOptions =
  opt_webhookUrls :: "string list option"
  opt_maxRetries :: "int option"
  opt_retryDelay :: "int option"
  opt_maxMessageLength :: "int option"

text \<open>The constructor: \<open>opts.webhookUrls || []\<close>, \<open>?? 3\<close>, \<open>?? 1000\<close>, \<open>?? 2000\<close>.\<close>

definition newTransport :: "DiscordTransportOptions \<Rightarrow> DiscordWebhookTransport" where
  "newTransport opts =
     \<lparr>webhookUrls = (case opt_webhookUrls opts of None \<Rightarrow> [] | Some us \<Rightarrow> us),
      maxRetries = (case opt_maxRetries opts of None \<Rightarrow> 3 | Some n \<Rightarrow> n),
      retryDelay = (case opt_retryDelay opts of None \<Rightarrow> 1000 | Some n \<Rightarrow> n),
      maxMessageLength = (case opt_maxMessageLength opts of None \<Rightarrow> 2000 | Some n \<Rightarrow> n)\<rparr>"

text \<open>The header of the message; \<open>entryIdentifier\<close> is the field \<open>identifier\<close>.\<close>

definition header_line :: "LogEntry \<Rightarrow> string" where
  "header_line info =
     ''**['' @ toUpperCase (levelName (level info)) @ '']** '' @ origin info @ '' > ''
       @ entryIdentifier info"

definition idParts :: "LogEntry \<Rightarrow> string list" where
  "idParts info =
     (case errorID info of None \<Rightarrow> []
      | Some e \<Rightarrow> if e = [] then [] else [''errorID: '' @ e])
     @ (case sessionID info of None \<Rightarrow> []
        | Some s \<Rightarrow> if s = [] then [] else [''sessionID: '' @ s])"

definition errorParts :: "ErrorObject \<Rightarrow> string list" where
  "errorParts e =
     [policeLight @ '' **'' @ orElse (err_name e) ''Error'' @ ''**: '' @ err_message e]
     @ (case err_code e of None \<Rightarrow> []
        | Some c \<Rightarrow> if truthy c then [''Code: '' @ String_js c] else [])
     @ (case err_stack e of None \<Rightarrow> []
        | Some s \<Rightarrow>
            if s = [] then []
            else [''```'' @ [CHR 0x0A] @ truncateString s 500 @ [CHR 0x0A] @ ''```''])"

definition messageParts :: "LogEntry \<Rightarrow> string list" where
  "messageParts info =
     [header_line info, message info]
     @ (if idParts info = [] then [] else [join (idParts info) '' | ''])
     @ (case comment info of None \<Rightarrow> []
        | Some c \<Rightarrow> if c = [] then [] else [speechBalloon @ '' '' @ c])
     @ (case error info of None \<Rightarrow> []
        | Some e \<Rightarrow> [join (errorParts e) [CHR 0x0A]])"

definition fullMessage :: "LogEntry \<Rightarrow> string" where
  "fullMessage info = join (messageParts info) [CHR 0x0A, CHR 0x0A]"

definition formatMessage :: "DiscordWebhookTransport \<Rightarrow> LogEntry \<Rightarrow> string" where
  "formatMessage t info = truncateString (fullMessage info) (maxMessageLength t)"

subsection \<open>The HTTP environment\<close>

text \<open>
  An endpoint answers a request with a response, or with none (a network error or the
  5 second timeout), or the call fails with an error that is not an \<open>AxiosError\<close>.
  The answer may depend on all earlier requests.  \<open>axios.post\<close> resolves on a status
  from 200 to 299 and rejects with an \<open>AxiosError\<close> carrying the response otherwise.
\<close>

record Response =
  r_status :: int
  r_headers :: "string \<rightharpoonup> string"
  r_data :: jsval

record Request =
  req_url :: string
  req_content :: string
  req_time :: int

datatype reply = Reply Response | NoReply | Crash

type_synonym server = "Request list \<Rightarrow> Request \<Rightarrow> reply"

datatype post_result = Resolved Response | AxiosError "Response option" | OtherError

datatype event = Logged LogEntry

text \<open>
  The mutable state: the clock, the rate limiter of the transport, the number of listeners
  attached to the \<open>error\<close> event of the transport, and the observable effects: requests
  sent, delays slept, \<open>logged\<close> events emitted, messages of the \<open>error\<close> events
  emitted, messages of the promise rejections nobody handles, completion callbacks
  invoked.  The \<open>logged\<close> event is emitted from \<open>setImmediate\<close> and the
  \<open>error\<close> event from a promise reaction, so which of the two comes first depends on
  the event loop; the two kinds are recorded apart and no order between them is
  modelled.
\<close>

record tstate =
  now :: int
  rateLimiter :: limiter
  requests :: "Request list"
  sleeps :: "int list"
  emitted :: "event list"
  callbacks :: nat
  errorListeners :: nat
  errors :: "string list"
  unhandled :: "string list"

definition sleep :: "int \<Rightarrow> tstate \<Rightarrow> tstate" where
  "sleep ms st = st\<lparr>now := now st + max 0 ms, sleeps := sleeps st @ [ms]\<rparr>"

definition axios_post :: "server \<Rightarrow> string \<Rightarrow> string \<Rightarrow> tstate \<Rightarrow> post_result \<times> tstate" where
  "axios_post srv url content st =
     (let req = \<lparr>req_url = url, req_content = content, req_time = now st\<rparr>
      in (case srv (requests st) req of
            Reply r \<Rightarrow>
              if 200 \<le> r_status r \<and> r_status r < 300 then Resolved r else AxiosError (Some r)
          | NoReply \<Rightarrow> AxiosError None
          | Crash \<Rightarrow> OtherError,
          st\<lparr>requests := requests st @ [req]\<rparr>))"

subsection \<open>Delivery\<close>

definition getRetryAfter :: "Builtins \<Rightarrow> Response option \<Rightarrow> int" where
  "getRetryAfter P response =
     (case (case response of None \<Rightarrow> None
            | Some r \<Rightarrow>
                (case header (r_headers r) ''retry-after'' of None \<Rightarrow> None
                 | Some h \<Rightarrow> (case parseFloat P h of NaN \<Rightarrow> None | Num n \<Rightarrow> Some n)))
      of Some n \<Rightarrow> n
       | None \<Rightarrow>
          (case response of None \<Rightarrow> 2
           | Some r \<Rightarrow>
               (case r_data r of
                  JObject fs \<Rightarrow>
                    (case getProp (r_data r) ''retry_after'' of
                       JNumber (Num n) \<Rightarrow> if n \<noteq> 0 then n else 2
                     | _ \<Rightarrow> 2)
                | _ \<Rightarrow> 2)))"

text \<open>
  The check at the head of every attempt of \<open>sendToWebhook\<close>: wait while the endpoint
  is rate limited.
\<close>

definition awaitRateLimit :: "string \<Rightarrow> tstate \<Rightarrow> tstate" where
  "awaitRateLimit webhookUrl st =
     (let (limited, rl) = isRateLimited (rateLimiter st) (now st) webhookUrl;
          st1 = st\<lparr>rateLimiter := rl\<rparr>
      in if limited then
           (case getWaitTime rl (now st1) webhookUrl of
              Num waitTime \<Rightarrow> if waitTime > 0 then sleep waitTime st1 else st1
            | NaN \<Rightarrow> st1)
         else st1)"

text \<open>
  One iteration of the retry loop of \<open>sendToWebhook\<close>: it returns, or it goes on to the
  next attempt (\<open>continue\<close>, or the end of the loop body after the backoff).
\<close>

datatype attempt_result = Return bool tstate | NextAttempt tstate

definition attemptOnce ::
  "Builtins \<Rightarrow> DiscordWebhookTransport \<Rightarrow> server \<Rightarrow> string \<Rightarrow> string \<Rightarrow> nat \<Rightarrow> tstate
     \<Rightarrow> attempt_result" where
  "attemptOnce P t srv webhookUrl msg attempt st =
     (let (res, st1) = axios_post srv webhookUrl msg (awaitRateLimit webhookUrl st);
          backoff = NextAttempt (sleep (retryDelay t * 2 ^ attempt) st1)
      in case res of
           Resolved r \<Rightarrow>
             Return True
               (st1\<lparr>rateLimiter :=
                  recordSuccess P (rateLimiter st1) (now st1) webhookUrl (r_headers r)\<rparr>)
         | AxiosError None \<Rightarrow> backoff
         | AxiosError (Some r) \<Rightarrow>
             if r_status r = 429 then
               (let retryAfter' = getRetryAfter P (Some r);
                    st2 = st1\<lparr>rateLimiter :=
                            recordRateLimit (rateLimiter st1) (now st1) webhookUrl retryAfter'\<rparr>
                in NextAttempt (sleep (retryAfter' * 1000) st2))
             else if r_status r \<ge> 400 \<and> r_status r < 500 then Return False st1
             else backoff
         | OtherError \<Rightarrow> backoff)"

function sendToWebhook_loop ::
  "Builtins \<Rightarrow> DiscordWebhookTransport \<Rightarrow> server \<Rightarrow> string \<Rightarrow> string \<Rightarrow> nat \<Rightarrow> tstate
     \<Rightarrow> bool \<times> tstate" where
  "sendToWebhook_loop P t srv webhookUrl msg attempt st =
     (if int attempt < maxRetries t then
        (case attemptOnce P t srv webhookUrl msg attempt st of
           Return ok st' \<Rightarrow> (ok, st')
         | NextAttempt st' \<Rightarrow> sendToWebhook_loop P t srv webhookUrl msg (Suc attempt) st')
      else (False, st))"
  by pat_completeness auto
termination
  by (relation "measure (\<lambda>(P, t, srv, webhookUrl, msg, attempt, st).
        nat (maxRetries t) - attempt)") auto

declare sendToWebhook_loop.simps [simp del]

definition sendToWebhook ::
  "Builtins \<Rightarrow> DiscordWebhookTransport \<Rightarrow> server \<Rightarrow> string \<Rightarrow> string \<Rightarrow> tstate
     \<Rightarrow> bool \<times> tstate" where
  "sendToWebhook P t srv webhookUrl msg st = sendToWebhook_loop P t srv webhookUrl msg 0 st"

text \<open>The loop of \<open>sendToDiscord\<close> over the webhook URLs.\<close>

fun tryWebhooks ::
  "Builtins \<Rightarrow> DiscordWebhookTransport \<Rightarrow> server \<Rightarrow> string list \<Rightarrow> string \<Rightarrow> tstate
     \<Rightarrow> bool \<times> tstate" where
  "tryWebhooks P t srv [] msg st = (False, st)"
| "tryWebhooks P t srv (webhookUrl # rest) msg st =
     (case sendToWebhook P t srv webhookUrl msg st of
        (True, st') \<Rightarrow> (True, st')
      | (False, st') \<Rightarrow> tryWebhooks P t srv rest msg st')"

text \<open>
  \<open>sendToDiscord\<close> is asynchronous: its result is how its promise settles, \<open>Inl\<close> the
  message of the error it rejects with.
\<close>

definition sendToDiscord ::
  "Builtins \<Rightarrow> DiscordWebhookTransport \<Rightarrow> server \<Rightarrow> LogEntry \<Rightarrow> tstate
     \<Rightarrow> (string + unit) \<times> tstate" where
  "sendToDiscord P t srv info st =
     (case tryWebhooks P t srv (webhookUrls t) (formatMessage t info) st of
        (True, st') \<Rightarrow> (Inr (), st')
      | (False, st') \<Rightarrow> (Inl ''All Discord webhook URLs failed'', st'))"

datatype completion = Returned | Thrown string

text \<open>
  \<open>this.emit('error', new Error(msg))\<close>: \<open>errors\<close> records every such call with the
  message of the error; the listeners receive it, and with no listener attached
  \<open>emit\<close> throws it.
\<close>

definition emit_error :: "string \<Rightarrow> tstate \<Rightarrow> completion \<times> tstate" where
  "emit_error msg st =
     (if errorListeners st = 0 then Thrown msg else Returned,
      st\<lparr>errors := errors st @ [msg]\<rparr>)"

text \<open>
  \<open>log\<close>: how the call completes for its caller, and the state once the delivery it
  started has settled.  A rejection of \<open>sendToDiscord\<close> is handled by \<open>.catch\<close>, whose
  handler emits an \<open>error\<close> event; when that \<open>emit\<close> throws, the promise returned by
  \<open>.catch\<close> is rejected and nothing handles it.
\<close>

definition log ::
  "Builtins \<Rightarrow> DiscordWebhookTransport \<Rightarrow> server \<Rightarrow> LogEntry \<Rightarrow> tstate
     \<Rightarrow> completion \<times> tstate" where
  "log P t srv info st =
     (let st0 = st\<lparr>emitted := emitted st @ [Logged info]\<rparr>
      in if \<not> truthy (sendDiscordWebhook info) then
           (Returned, st0\<lparr>callbacks := callbacks st0 + 1\<rparr>)
         else
           (case sendToDiscord P t srv info st0 of
              (Inl err, st1) \<Rightarrow>
                (case emit_error (''Discord transport error: '' @ err) st1 of
                   (Returned, st2) \<Rightarrow> (Returned, st2\<lparr>callbacks := callbacks st2 + 1\<rparr>)
                 | (Thrown m, st2) \<Rightarrow>
                     (Returned,
                      st2\<lparr>unhandled := unhandled st2 @ [m], callbacks := callbacks st2 + 1\<rparr>))
            | (Inr u, st1) \<Rightarrow> (Returned, st1\<lparr>callbacks := callbacks st1 + 1\<rparr>)))"

text \<open>The state carried by the result of one iteration.\<close>

fun stateOf :: "attempt_result \<Rightarrow> tstate" where
  "stateOf (Return ok st) = st"
| "stateOf (NextAttempt st) = st"

section \<open>Concrete inputs\<close>

text \<open>Inputs on which the theorems below are run.\<close>

definition deepError :: jsval where
  "deepError =
     JObject [(''message'', JString ''e0''), (''cause'',
       JObject [(''message'', JString ''e1''), (''cause'',
         JObject [(''message'', JString ''e2''), (''cause'',
           JObject [(''message'', JString ''e3''), (''cause'',
             JObject [(''message'', JString ''e4''), (''cause'',
               JObject [(''message'', JString ''e5'')])])])])])]"

definition badStackError :: jsval where
  "badStackError = JObject [(''message'', JString []), (''stack'', JNumber (Num 42))]"

definition noStringObject :: jsval where
  "noStringObject = JObject [(''toString'', JNull)]"

text \<open>
  The run-time environment of the concrete runs: the library on plain data and decimal
  digits for numbers.  The two other builtins are reached only for a stack that is an
  object and for response data that is an object; none of the inputs below has either,
  so the values given for them here are never read.
\<close>

definition plainRuntime :: Runtime where
  "plainRuntime =
     \<lparr>baseSerializeError = plainSerialize, numberToString = showInt,
      stringToNumber = parseDecimal, JSON_stringify = (\<lambda>v. None)\<rparr>"

definition emptyMessageError :: jsval where
  "emptyMessageError = JObject [(''message'', JString [])]"

definition nestedError :: jsval where
  "nestedError =
     JObject [(''message'', JString ''boom''), (''cause'', JObject [(''message'', JString [])])]"

definition exhaustedHeaders :: "string \<rightharpoonup> string" where
  "exhaustedHeaders =
     [''x-ratelimit-remaining'' \<mapsto> ''0'', ''x-ratelimit-reset-after'' \<mapsto> ''1'']"

definition sampleEntry :: LogEntry where
  "sampleEntry =
     \<lparr>timestamp = ''2024-01-01T00:00:00.000Z'', level = Error, origin = ''api'',
      entryIdentifier = ''db'', sendDiscordWebhook = JBool True,
      message = ''connection lost'', service = ''svc'', sessionID = None,
      errorID = Some ''eid-1'', error = None, comment = None, meta = None\<rparr>"

definition quietEntry :: LogEntry where
  "quietEntry = sampleEntry\<lparr>sendDiscordWebhook := JUndefined\<rparr>"

definition initState :: tstate where
  "initState =
     \<lparr>now = 0, rateLimiter = Map.empty, requests = [], sleeps = [], emitted = [],
      callbacks = 0, errorListeners = 0, errors = [], unhandled = []\<rparr>"

text \<open>The same state with one listener attached to the \<open>error\<close> event.\<close>

definition listeningState :: tstate where
  "listeningState = initState\<lparr>errorListeners := 1\<rparr>"

definition transportFor :: "string list \<Rightarrow> DiscordWebhookTransport" where
  "transportFor urls =
     newTransport \<lparr>opt_webhookUrls = Some urls, opt_maxRetries = None, opt_retryDelay = None,
       opt_maxMessageLength = None\<rparr>"

definition shortTransport :: DiscordWebhookTransport where
  "shortTransport =
     newTransport \<lparr>opt_webhookUrls = None, opt_maxRetries = None, opt_retryDelay = None,
       opt_maxMessageLength = Some 30\<rparr>"

definition plainReply :: "int \<Rightarrow> reply" where
  "plainReply code = Reply \<lparr>r_status = code, r_headers = Map.empty, r_data = JUndefined\<rparr>"

text \<open>An endpoint that answers every request with the same status.\<close>

definition constServer :: "int \<Rightarrow> server" where
  "constServer code h req = plainReply code"

text \<open>Endpoint \<open>''A''\<close> always answers 500, every other endpoint 200.\<close>

definition failoverServer :: server where
  "failoverServer h req = (if req_url req = ''A'' then plainReply 500 else plainReply 200)"

text \<open>The first request is answered 429 with \<open>Retry-After: 1\<close>, every later one 200.\<close>

definition retryAfterReply :: Response where
  "retryAfterReply =
     \<lparr>r_status = 429, r_headers = [''retry-after'' \<mapsto> ''1''], r_data = JUndefined\<rparr>"

definition rateLimitingServer :: server where
  "rateLimitingServer h req = (if h = [] then Reply retryAfterReply else plainReply 200)"

section \<open>Properties of truncation\<close>

lemma truncateString_length:
  "3 \<le> limit \<Longrightarrow> limit < int (length s) \<Longrightarrow> length (truncateString s limit) = nat limit"
  by (auto simp: truncateString_def)

lemma truncateString_idem:
  "truncateString (truncateString s limit) limit = truncateString s limit"
  by (auto simp: truncateString_def)

lemma truncateString_suffix:
  "0 \<le> limit \<Longrightarrow> limit < int (length s) \<Longrightarrow> suffix ''...'' (truncateString s limit)"
  by (auto simp: truncateString_def suffix_def)

lemma truncateString_keeps_prefix:
  "take (nat (limit - 3)) (truncateString s limit) = take (nat (limit - 3)) s"
  by (auto simp: truncateString_def)

lemma truncateString_at_most:
  "3 \<le> limit \<Longrightarrow> int (length (truncateString s limit)) \<le> limit"
  by (auto simp: truncateString_def)

lemma truncateString_prefix:
  assumes "prefix h s" and "int (length h) + 3 \<le> limit"
  shows "prefix h (truncateString s limit)"
proof (cases "s = [] \<or> int (length s) \<le> limit")
  case True
  with assms show ?thesis by (simp add: truncateString_def)
next
  case False
  from assms obtain r where s: "s = h @ r" by (auto simp: prefix_def)
  from assms(2) have "length h \<le> nat (limit - 3)" by simp
  then have "prefix h (take (nat (limit - 3)) s)" unfolding s by (simp add: prefix_def)
  then have "prefix h (take (nat (limit - 3)) s @ ''...'')" by (rule prefix_prefix)
  with False show ?thesis by (simp add: truncateString_def)
qed

lemma header_prefix_fullMessage: "prefix (header_line info) (fullMessage info)"
  by (simp add: fullMessage_def messageParts_def)

text \<open>
  C3 (amended).  For every limit of at least 3 and every string strictly longer than the
  limit, \<open>truncateString\<close> returns exactly \<open>limit\<close> characters, ending in the marker
  \<open>...\<close>, and keeps the first \<open>limit - 3\<close> characters of the original; truncating
  again at the same limit changes nothing (for every string and limit).  The formatted
  alert message is \<open>truncateString\<close> of the full message: it has at most
  \<open>maxMessageLength\<close> characters when that is at least 3, and it starts with the whole
  header whenever the header fits in \<open>maxMessageLength - 3\<close> characters.
\<close>

theorem truncation_contract:
  "(3 \<le> limit \<and> limit < int (length str) \<longrightarrow>
      length (truncateString str limit) = nat limit
      \<and> suffix ''...'' (truncateString str limit)
      \<and> take (nat (limit - 3)) (truncateString str limit) = take (nat (limit - 3)) str)
   \<and> truncateString (truncateString str limit) limit = truncateString str limit
   \<and> formatMessage t info = truncateString (fullMessage info) (maxMessageLength t)
   \<and> (3 \<le> maxMessageLength t \<longrightarrow> int (length (formatMessage t info)) \<le> maxMessageLength t)
   \<and> (int (length (header_line info)) + 3 \<le> maxMessageLength t \<longrightarrow>
        prefix (header_line info) (formatMessage t info))"
  unfolding formatMessage_def
  using truncateString_length truncateString_suffix truncateString_keeps_prefix
    truncateString_idem truncateString_at_most
    truncateString_prefix [OF header_prefix_fullMessage]
  by simp

theorem truncation_contract_witness:
  "3 \<le> (5::int) \<and> 5 < int (length ''abcdefghij'')
   \<and> truncateString ''abcdefghij'' 5 = ''ab...''
   \<and> suffix ''...'' (truncateString ''abcdefghij'' 5)
   \<and> 3 \<le> maxMessageLength shortTransport
   \<and> int (length (header_line sampleEntry)) + 3 \<le> maxMessageLength shortTransport
   \<and> formatMessage shortTransport sampleEntry
       = ''**[ERROR]** api > db'' @ [CHR 0x0A, CHR 0x0A] @ ''conne...''
   \<and> int (length (formatMessage shortTransport sampleEntry)) \<le> 30
   \<and> prefix (header_line sampleEntry) (formatMessage shortTransport sampleEntry)"
  using truncation_contract [of 5 "''abcdefghij''" shortTransport sampleEntry]
  by (simp add: truncateString_def fullMessage_def messageParts_def
      header_line_def sampleEntry_def shortTransport_def newTransport_def idParts_def
      toUpperCase_def upperChar_def char_of_def bit_iff_odd)

text \<open>
  With a limit below 3 the result is the bare marker, which is longer than the limit.
\<close>

theorem truncateString_short_limit_counterexample:
  "2 < int (length ''abcd'') \<and> truncateString ''abcd'' 2 = ''...''
   \<and> length (truncateString ''abcd'' 2) \<noteq> nat 2"
  by (simp add: truncateString_def)

section \<open>Properties of the error serializer\<close>

lemma buildNode_Inr:
  assumes "buildNode R s d limit cr rr = Inr r"
  obtains st c rp where "stackOf R (s_stack s) limit = Inr st" "cr = Inr c" "rr = Inr rp"
    "r = SerializedError (s_name s) (orDefault (s_message s) d) st (codeOf (s_code s)) c rp"
  using assms by (auto simp: buildNode_def split: sum.splits)

lemma buildNode_returns:
  "\<not> isl (stackOf R (s_stack s) limit) \<Longrightarrow> \<not> isl cr \<Longrightarrow> \<not> isl rr \<Longrightarrow>
   \<not> isl (buildNode R s d limit cr rr)"
  by (auto simp: buildNode_def split: sum.splits)

lemma serializeCause_beyond:
  "d > m \<Longrightarrow> serializeCause R c m d lim = Inr depthSentinel"
  by (simp add: serializeCause.simps)

lemma serializeCause_unknown:
  "d \<le> m \<Longrightarrow> \<not> isErrorLike c \<Longrightarrow> serializeCause R c m d lim = unknownNode R ''UnknownCause'' c"
  by (subst serializeCause.simps) simp

lemma serializeCause_node:
  "d \<le> m \<Longrightarrow> isErrorLike c \<Longrightarrow>
   serializeCause R c m d lim =
     buildNode R (baseSerializeError R c) ''Unknown cause'' (stackLimit lim)
       (if truthy (s_cause (baseSerializeError R c))
        then (case serializeCause R (s_cause (baseSerializeError R c)) m (d + 1) lim of
                Inl e \<Rightarrow> Inl e | Inr x \<Rightarrow> Inr (Some x))
        else Inr None)
       (Inr None)"
  by (subst serializeCause.simps) simp

lemma unknownNode_Inr:
  "unknownNode R n v = Inr r \<Longrightarrow> chainLength r = 0 \<and> se_cause r = None"
  by (auto simp: unknownNode_def split: sum.splits)

lemma chainLength_sentinel [simp]: "chainLength depthSentinel = 0"
  by (simp add: depthSentinel_def)

lemma serializeCause_chainLength:
  "serializeCause R c m d lim = Inr r \<Longrightarrow> chainLength r \<le> nat (m + 1 - d)"
proof (induction R c m d lim arbitrary: r rule: serializeCause.induct)
  case (1 R cause maxDepth currentDepth limits)
  show ?case
  proof (cases "currentDepth > maxDepth")
    case True
    with "1.prems" show ?thesis by (simp add: serializeCause_beyond)
  next
    case False
    then have d: "currentDepth \<le> maxDepth" by simp
    show ?thesis
    proof (cases "isErrorLike cause")
      case False
      with d "1.prems" unknownNode_Inr [of R "''UnknownCause''" cause r] show ?thesis
        by (simp add: serializeCause_unknown)
    next
      case True
      let ?s = "baseSerializeError R cause"
      from "1.prems" d True obtain st c rp where
        c: "(if truthy (s_cause ?s)
             then (case serializeCause R (s_cause ?s) maxDepth (currentDepth + 1) limits of
                     Inl e \<Rightarrow> Inl e | Inr x \<Rightarrow> Inr (Some x))
             else Inr None) = Inr c"
        and r: "r = SerializedError (s_name ?s) (orDefault (s_message ?s) ''Unknown cause'') st
                     (codeOf (s_code ?s)) c rp"
        by (auto simp: serializeCause_node elim!: buildNode_Inr)
      show ?thesis
      proof (cases c)
        case None
        with r show ?thesis by simp
      next
        case (Some x)
        with c have t: "truthy (s_cause ?s)"
          and x: "serializeCause R (s_cause ?s) maxDepth (currentDepth + 1) limits = Inr x"
          by (auto split: if_splits sum.splits)
        from "1.IH" [OF False _ t x] True
        have "chainLength x \<le> nat (maxDepth + 1 - (currentDepth + 1))" by simp
        with d r Some show ?thesis by simp
      qed
    qed
  qed
qed

lemma serializeError_chainLength:
  assumes "serializeError R e lim = Inr r"
  shows "chainLength r \<le> nat (causeMaxDepth lim) + 1"
proof (cases "isErrorLike e")
  case False
  with assms unknownNode_Inr [of R "''UnknownError''" e r] show ?thesis
    by (simp add: serializeError_def)
next
  case True
  let ?s = "baseSerializeError R e"
  from assms True obtain st c rp where
    c: "(if truthy (s_cause ?s)
         then (case serializeCause R (s_cause ?s) (causeMaxDepth lim) 1 lim of
                 Inl e \<Rightarrow> Inl e | Inr x \<Rightarrow> Inr (Some x))
         else Inr None) = Inr c"
    and r: "r = SerializedError (s_name ?s) (orDefault (s_message ?s) ''Unknown error'') st
                 (codeOf (s_code ?s)) c rp"
    by (auto simp: serializeError_def elim!: buildNode_Inr)
  show ?thesis
  proof (cases c)
    case None
    with r show ?thesis by simp
  next
    case (Some x)
    with c have "serializeCause R (s_cause ?s) (causeMaxDepth lim) 1 lim = Inr x"
      by (auto split: if_splits sum.splits)
    from serializeCause_chainLength [OF this] r Some show ?thesis by simp
  qed
qed

lemma serializeCause_sentinel:
  "serializeCause R c m d lim = Inr r \<Longrightarrow> inputCause R c k \<noteq> None \<Longrightarrow>
   k = nat (m + 1 - d) \<Longrightarrow> nthCause r k = Some depthSentinel"
proof (induction k arbitrary: c d r)
  case 0
  then have "d > m" by simp
  with "0.prems"(1) show ?case by (simp add: serializeCause_beyond)
next
  case (Suc k)
  let ?s = "baseSerializeError R c"
  from Suc.prems(3) have d: "d \<le> m" and k: "k = nat (m + 1 - (d + 1))" by simp_all
  from Suc.prems(2) have el: "isErrorLike c" "truthy (s_cause ?s)"
    and nx: "inputCause R (s_cause ?s) k \<noteq> None"
    by (auto split: if_splits)
  from Suc.prems(1) d el obtain st x rp where
    x: "serializeCause R (s_cause ?s) m (d + 1) lim = Inr x"
    and r: "r = SerializedError (s_name ?s) (orDefault (s_message ?s) ''Unknown cause'') st
                 (codeOf (s_code ?s)) (Some x) rp"
    by (auto simp: serializeCause_node elim!: buildNode_Inr split: sum.splits)
  from Suc.IH [OF x nx k] r show ?case by simp
qed

lemma serializeError_sentinel:
  assumes "serializeError R e lim = Inr r"
    and "inputCause R e (nat (causeMaxDepth lim) + 1) \<noteq> None"
  shows "nthCause r (nat (causeMaxDepth lim) + 1) = Some depthSentinel"
proof -
  let ?s = "baseSerializeError R e"
  from assms(2) have el: "isErrorLike e" "truthy (s_cause ?s)"
    and nx: "inputCause R (s_cause ?s) (nat (causeMaxDepth lim)) \<noteq> None"
    by (auto split: if_splits)
  from assms(1) el obtain st x rp where
    x: "serializeCause R (s_cause ?s) (causeMaxDepth lim) 1 lim = Inr x"
    and r: "r = SerializedError (s_name ?s) (orDefault (s_message ?s) ''Unknown error'') st
                 (codeOf (s_code ?s)) (Some x) rp"
    by (auto simp: serializeError_def elim!: buildNode_Inr split: sum.splits)
  have "nthCause x (nat (causeMaxDepth lim)) = Some depthSentinel"
    by (rule serializeCause_sentinel [OF x nx]) simp
  with r show ?thesis by simp
qed

lemma nthCause_chainLength:
  "nthCause e k = Some x \<Longrightarrow> chainLength e = k + chainLength x"
proof (induction k arbitrary: e)
  case 0
  then show ?case by simp
next
  case (Suc k)
  then show ?case by (cases e) (auto split: option.splits)
qed

lemma serializeCause_returns:
  "(\<forall>k x. int k \<le> m - d \<longrightarrow> inputCause R c k = Some x \<longrightarrow> causeReadable R lim x) \<Longrightarrow>
   \<not> isl (serializeCause R c m d lim)"
proof (induction R c m d lim rule: serializeCause.induct)
  case (1 R cause maxDepth currentDepth limits)
  show ?case
  proof (cases "currentDepth > maxDepth")
    case True
    then show ?thesis by (simp add: serializeCause_beyond)
  next
    case False
    then have d: "currentDepth \<le> maxDepth" by simp
    from "1.prems" [rule_format, of 0 cause] d have rd: "causeReadable R limits cause" by simp
    show ?thesis
    proof (cases "isErrorLike cause")
      case False
      with rd d show ?thesis
        by (auto simp: serializeCause_unknown unknownNode_def causeReadable_def split: sum.splits)
    next
      case True
      let ?s = "baseSerializeError R cause"
      from rd True have st: "\<not> isl (stackOf R (s_stack ?s) (stackLimit limits))"
        by (simp add: causeReadable_def)
      have cr: "\<not> isl (if truthy (s_cause ?s)
             then (case serializeCause R (s_cause ?s) maxDepth (currentDepth + 1) limits of
                     Inl e \<Rightarrow> Inl e | Inr x \<Rightarrow> Inr (Some x))
             else Inr None)"
      proof (cases "truthy (s_cause ?s)")
        case False
        then show ?thesis by simp
      next
        case t: True
        have "\<forall>k x. int k \<le> maxDepth - (currentDepth + 1) \<longrightarrow>
                inputCause R (s_cause ?s) k = Some x \<longrightarrow> causeReadable R limits x"
        proof (intro allI impI)
          fix k x
          assume "int k \<le> maxDepth - (currentDepth + 1)" "inputCause R (s_cause ?s) k = Some x"
          with True t "1.prems" [rule_format, of "Suc k" x] show "causeReadable R limits x"
            by simp
        qed
        from "1.IH" [OF False _ t this] True t show ?thesis
          by (auto split: sum.splits)
      qed
      from buildNode_returns [OF st cr, of "Inr None" "''Unknown cause''"] d True
      show ?thesis by (simp add: serializeCause_node)
    qed
  qed
qed

lemma serializeError_returns:
  assumes "\<forall>k x. (k = 0 \<or> int k \<le> causeMaxDepth lim) \<longrightarrow> inputCause R e k = Some x
             \<longrightarrow> causeReadable R lim x"
    and "\<not> isl (responseDetails R (s_response (baseSerializeError R e)) (responseDataLimit lim))"
  shows "\<not> isl (serializeError R e lim)"
proof (cases "isErrorLike e")
  case False
  with assms(1) [rule_format, of 0 e] show ?thesis
    by (auto simp: serializeError_def unknownNode_def causeReadable_def split: sum.splits)
next
  case True
  let ?s = "baseSerializeError R e"
  from assms(1) [rule_format, of 0 e] True
  have st: "\<not> isl (stackOf R (s_stack ?s) (stackLimit lim))"
    by (simp add: causeReadable_def)
  have cr: "\<not> isl (if truthy (s_cause ?s)
         then (case serializeCause R (s_cause ?s) (causeMaxDepth lim) 1 lim of
                 Inl e \<Rightarrow> Inl e | Inr x \<Rightarrow> Inr (Some x))
         else Inr None)"
  proof (cases "truthy (s_cause ?s)")
    case False
    then show ?thesis by simp
  next
    case t: True
    have "\<forall>k x. int k \<le> causeMaxDepth lim - 1 \<longrightarrow>
            inputCause R (s_cause ?s) k = Some x \<longrightarrow> causeReadable R lim x"
    proof (intro allI impI)
      fix k x
      assume "int k \<le> causeMaxDepth lim - 1" "inputCause R (s_cause ?s) k = Some x"
      with True t assms(1) [rule_format, of "Suc k" x] show "causeReadable R lim x"
        by simp
    qed
    from serializeCause_returns [OF this] show ?thesis
      using t by (auto split: sum.splits)
  qed
  from buildNode_returns [OF st cr assms(2), of "''Unknown error''"] True
  show ?thesis by (simp add: serializeError_def)
qed

lemma stackOf_string_or_falsy:
  "(case st of JString s \<Rightarrow> True | v \<Rightarrow> \<not> truthy v) \<Longrightarrow> \<not> isl (stackOf R st limit)"
  by (cases st) (auto simp: stackOf_def truncateString_any_def split: jsnum.splits)




text \<open>
  C8 (amended).  For every input that is not error-like and has a string form,
  \<open>serializeError\<close> returns a single node with name \<open>UnknownError\<close>, message the
  string form of the input, and no stack, code, cause or response details.  For every
  error-like input whose message is empty (and is reported so by the library), the node
  that \<open>serializeError\<close> returns has the message \<open>Unknown error\<close>; it returns
  whenever the stack can be read, the cause is falsy and the response details can be
  built.  Causes are serialized with defaults of their own: within the depth limit an
  error-like cause with an empty message gets the message \<open>Unknown cause\<close>, and a
  cause that is not error-like and has a string form becomes a node named
  \<open>UnknownCause\<close> with that string as message.
\<close>

theorem serializeError_defaults:
  "(\<not> isErrorLike v \<and> ToString (numberToString R) v = Inr s \<longrightarrow>
      serializeError R v lim
        = Inr (SerializedError (JString ''UnknownError'') (JString s) None None None None))
   \<and> (isErrorLike v \<and> getProp v ''message'' = JString []
        \<and> s_message (baseSerializeError R v) = getProp v ''message''
       \<longrightarrow> (\<forall>r. serializeError R v lim = Inr r \<longrightarrow> se_message r = JString ''Unknown error'')
           \<and> (\<not> isl (stackOf R (s_stack (baseSerializeError R v)) (stackLimit lim))
                \<and> \<not> truthy (s_cause (baseSerializeError R v))
                \<and> \<not> isl (responseDetails R (s_response (baseSerializeError R v))
                           (responseDataLimit lim))
               \<longrightarrow> (\<exists>r. serializeError R v lim = Inr r)))
   \<and> (d \<le> m \<and> isErrorLike c \<and> getProp c ''message'' = JString []
        \<and> s_message (baseSerializeError R c) = getProp c ''message''
       \<longrightarrow> (\<forall>r. serializeCause R c m d lim = Inr r \<longrightarrow> se_message r = JString ''Unknown cause'')
           \<and> (\<not> isl (stackOf R (s_stack (baseSerializeError R c)) (stackLimit lim))
                \<and> \<not> truthy (s_cause (baseSerializeError R c))
               \<longrightarrow> (\<exists>r. serializeCause R c m d lim = Inr r)))
   \<and> (d \<le> m \<and> \<not> isErrorLike c \<and> ToString (numberToString R) c = Inr s' \<longrightarrow>
        serializeCause R c m d lim
          = Inr (SerializedError (JString ''UnknownCause'') (JString s') None None None None))"
proof -
  have p1: "serializeError R v lim
        = Inr (SerializedError (JString ''UnknownError'') (JString s) None None None None)"
    if "\<not> isErrorLike v" "ToString (numberToString R) v = Inr s"
    using that by (simp add: serializeError_def unknownNode_def)
  have p2: "se_message r = JString ''Unknown error''"
    if "isErrorLike v" "getProp v ''message'' = JString []"
      "s_message (baseSerializeError R v) = getProp v ''message''"
      "serializeError R v lim = Inr r" for r
    using that by (auto simp: serializeError_def orDefault_def elim!: buildNode_Inr)
  have p2': "\<exists>r. serializeError R v lim = Inr r"
    if "isErrorLike v"
      "\<not> isl (stackOf R (s_stack (baseSerializeError R v)) (stackLimit lim))"
      "\<not> truthy (s_cause (baseSerializeError R v))"
      "\<not> isl (responseDetails R (s_response (baseSerializeError R v)) (responseDataLimit lim))"
    using that buildNode_returns [OF that(2) _ that(4), of "Inr None" "''Unknown error''"]
    by (cases "serializeError R v lim") (simp_all add: serializeError_def)
  have p3: "se_message r = JString ''Unknown cause''"
    if "d \<le> m" "isErrorLike c" "getProp c ''message'' = JString []"
      "s_message (baseSerializeError R c) = getProp c ''message''"
      "serializeCause R c m d lim = Inr r" for r
    using that by (auto simp: serializeCause_node orDefault_def elim!: buildNode_Inr)
  have p3': "\<exists>r. serializeCause R c m d lim = Inr r"
    if "d \<le> m" "isErrorLike c"
      "\<not> isl (stackOf R (s_stack (baseSerializeError R c)) (stackLimit lim))"
      "\<not> truthy (s_cause (baseSerializeError R c))"
    using that buildNode_returns [OF that(3), of "Inr None" "Inr None" "''Unknown cause''"]
    by (cases "serializeCause R c m d lim") (simp_all add: serializeCause_node)
  have p4: "serializeCause R c m d lim
          = Inr (SerializedError (JString ''UnknownCause'') (JString s') None None None None)"
    if "d \<le> m" "\<not> isErrorLike c" "ToString (numberToString R) c = Inr s'"
    using that by (simp add: serializeCause_unknown unknownNode_def)
  show ?thesis
    using p1 p2 p2' p3 p3' p4 by blast
qed

theorem serializeError_defaults_witness:
  "\<not> isErrorLike (JNumber (Num 42))
   \<and> ToString (numberToString plainRuntime) (JNumber (Num 42)) = Inr ''42''
   \<and> serializeError plainRuntime (JNumber (Num 42)) DEFAULT_LIMITS
       = Inr (SerializedError (JString ''UnknownError'') (JString ''42'') None None None None)
   \<and> isErrorLike emptyMessageError
   \<and> getProp emptyMessageError ''message'' = JString []
   \<and> s_message (baseSerializeError plainRuntime emptyMessageError)
       = getProp emptyMessageError ''message''
   \<and> \<not> isl (stackOf plainRuntime
             (s_stack (baseSerializeError plainRuntime emptyMessageError))
             (stackLimit DEFAULT_LIMITS))
   \<and> \<not> truthy (s_cause (baseSerializeError plainRuntime emptyMessageError))
   \<and> \<not> isl (responseDetails plainRuntime
             (s_response (baseSerializeError plainRuntime emptyMessageError))
             (responseDataLimit DEFAULT_LIMITS))
   \<and> \<not> isl (serializeError plainRuntime emptyMessageError DEFAULT_LIMITS)
   \<and> se_message (projr (serializeError plainRuntime emptyMessageError DEFAULT_LIMITS))
       = JString ''Unknown error''
   \<and> (1::int) \<le> 3
   \<and> \<not> isl (serializeCause plainRuntime emptyMessageError 3 1 DEFAULT_LIMITS)
   \<and> se_message (projr (serializeCause plainRuntime emptyMessageError 3 1 DEFAULT_LIMITS))
       = JString ''Unknown cause''
   \<and> \<not> isErrorLike (JString ''disk full'')
   \<and> ToString (numberToString plainRuntime) (JString ''disk full'') = Inr ''disk full''
   \<and> serializeCause plainRuntime (JString ''disk full'') 3 1 DEFAULT_LIMITS
       = Inr (SerializedError (JString ''UnknownCause'') (JString ''disk full'')
                None None None None)"
proof -
  have n: "ToString (numberToString plainRuntime) (JNumber (Num 42)) = Inr ''42''"
    by (simp add: plainRuntime_def showInt_def showNat.simps char_of_def bit_iff_odd)
  have e: "isErrorLike emptyMessageError" "getProp emptyMessageError ''message'' = JString []"
    "s_message (baseSerializeError plainRuntime emptyMessageError)
       = getProp emptyMessageError ''message''"
    "\<not> isl (stackOf plainRuntime (s_stack (baseSerializeError plainRuntime emptyMessageError))
         (stackLimit DEFAULT_LIMITS))"
    "\<not> truthy (s_cause (baseSerializeError plainRuntime emptyMessageError))"
    "\<not> isl (responseDetails plainRuntime
         (s_response (baseSerializeError plainRuntime emptyMessageError))
         (responseDataLimit DEFAULT_LIMITS))"
    by (simp_all add: emptyMessageError_def plainRuntime_def plainSerialize_def stackOf_def
        responseDetails_def)
  have u: "\<not> isErrorLike (JNumber (Num 42))" "\<not> isErrorLike (JString ''disk full'')"
    "ToString (numberToString plainRuntime) (JString ''disk full'') = Inr ''disk full''"
    by simp_all
  from serializeError_defaults [of "JNumber (Num 42)" plainRuntime "''42''" DEFAULT_LIMITS
      1 3 emptyMessageError] n u
  have w1: "serializeError plainRuntime (JNumber (Num 42)) DEFAULT_LIMITS
       = Inr (SerializedError (JString ''UnknownError'') (JString ''42'') None None None None)"
    by blast
  from serializeError_defaults [of emptyMessageError plainRuntime "''42''" DEFAULT_LIMITS
      1 3 emptyMessageError] e
  obtain r r' where w2: "serializeError plainRuntime emptyMessageError DEFAULT_LIMITS = Inr r"
      "se_message r = JString ''Unknown error''"
    and w3: "serializeCause plainRuntime emptyMessageError 3 1 DEFAULT_LIMITS = Inr r'"
      "se_message r' = JString ''Unknown cause''"
    by auto
  from serializeError_defaults [of emptyMessageError plainRuntime "''42''" DEFAULT_LIMITS
      1 3 "JString ''disk full''" "''disk full''"] u
  have w4: "serializeCause plainRuntime (JString ''disk full'') 3 1 DEFAULT_LIMITS
       = Inr (SerializedError (JString ''UnknownCause'') (JString ''disk full'')
                None None None None)"
    by simp
  from n u e w1 w2 w3 w4 show ?thesis by simp
qed

text \<open>
  Three inputs against the claim as it was stated.  The cause of
  \<open>{message: 'boom', cause: {message: ''}}\<close> is serialized with the message
  \<open>Unknown cause\<close>, not \<open>Unknown error\<close>.  The object \<open>{toString: null}\<close> is not
  error-like and has no string form: \<open>String\<close> throws, and so does \<open>serializeError\<close>.
  The error-like \<open>{message: '', stack: 42}\<close> has an empty message and no resulting
  node: the truncation of its stack throws.
\<close>

theorem cause_message_counterexample:
  "isErrorLike emptyMessageError
   \<and> getProp nestedError ''cause'' = emptyMessageError
   \<and> nthCause (projr (serializeError plainRuntime nestedError DEFAULT_LIMITS)) 1
      = Some (SerializedError JUndefined (JString ''Unknown cause'') None None None None)
   \<and> ''Unknown cause'' \<noteq> ''Unknown error''
   \<and> \<not> isErrorLike noStringObject
   \<and> serializeError plainRuntime noStringObject DEFAULT_LIMITS = Inl TypeError
   \<and> isErrorLike badStackError
   \<and> getProp badStackError ''message'' = JString []
   \<and> serializeError plainRuntime badStackError DEFAULT_LIMITS = Inl TypeError"
  by (simp add: serializeError_def serializeCause.simps plainRuntime_def plainSerialize_def
      DEFAULT_LIMITS_def nestedError_def emptyMessageError_def noStringObject_def
      badStackError_def buildNode_def stackOf_def truncateString_any_def responseDetails_def
      orDefault_def codeOf_def unknownNode_def)

section \<open>Properties of the rate limiter\<close>

lemma isRateLimited_unknown: "rl url = None \<Longrightarrow> isRateLimited rl tm url = (False, rl)"
  by (simp add: isRateLimited_def)

lemma isRateLimited_lazy_expiry:
  assumes "rl url = Some s" "isLimited s" "js_le (resetAt s) (Num tm)"
  shows "isRateLimited rl tm url
           = (False, rl(url \<mapsto> s\<lparr>isLimited := False, remaining := Num 30\<rparr>))"
  using assms by (simp add: isRateLimited_def defaultLimit_def)

lemma isRateLimited_exhausted:
  assumes "rl url = Some s" "\<not> isLimited s" "js_le (remaining s) (Num 0)"
  shows "isRateLimited rl tm url = (True, rl)"
  using assms by (simp add: isRateLimited_def map_upd_triv)

lemma isRateLimited_after_penalty:
  assumes "0 \<le> ra" "tm + ra * 1000 \<le> tm'"
  shows "fst (isRateLimited (recordRateLimit rl tm url ra) tm' url) = False"
  using assms by (simp add: isRateLimited_def recordRateLimit_def defaultLimit_def)

text \<open>
  C2 (amended).  For every endpoint key whose stored state is a penalty (the limited flag
  is set, as \<open>recordRateLimit\<close> sets it), \<open>isRateLimited\<close> returns false as soon as
  the current time is at or past the stored \<open>resetAt\<close>, with no \<open>recordSuccess\<close> in
  between: the lazy expiry clears the flag and restores \<open>remaining\<close> to 30, and every
  later call reports the endpoint as not limited.  An endpoint with no stored state is
  not limited.  A window without requests left whose flag is not set does not expire:
  \<open>isRateLimited\<close> returns true at every time and leaves the state as it is.
\<close>

theorem isRateLimited_penalty_expiry:
  "(rl url = Some s \<and> isLimited s \<and> js_le (resetAt s) (Num tm) \<longrightarrow>
      isRateLimited rl tm url
        = (False, rl(url \<mapsto> s\<lparr>isLimited := False, remaining := Num 30\<rparr>))
      \<and> isRateLimited (snd (isRateLimited rl tm url)) tm' url
          = (False, snd (isRateLimited rl tm url)))
   \<and> (tm0 + delay * 1000 \<le> tm \<longrightarrow>
        fst (isRateLimited (recordRateLimit rl tm0 url delay) tm url) = False)
   \<and> (rl url = None \<longrightarrow> isRateLimited rl tm url = (False, rl))
   \<and> (rl url = Some s \<and> \<not> isLimited s \<and> js_le (remaining s) (Num 0) \<longrightarrow>
        isRateLimited rl tm url = (True, rl))"
proof -
  have a: "isRateLimited rl tm url
        = (False, rl(url \<mapsto> s\<lparr>isLimited := False, remaining := Num 30\<rparr>))"
    if "rl url = Some s" "isLimited s" "js_le (resetAt s) (Num tm)"
    using that by (rule isRateLimited_lazy_expiry)
  have b: "isRateLimited (rl(url \<mapsto> s\<lparr>isLimited := False, remaining := Num 30\<rparr>)) tm' url
        = (False, rl(url \<mapsto> s\<lparr>isLimited := False, remaining := Num 30\<rparr>))"
    by (simp add: isRateLimited_def)
  have c: "fst (isRateLimited (recordRateLimit rl tm0 url delay) tm url) = False"
    if "tm0 + delay * 1000 \<le> tm"
    using that by (simp add: isRateLimited_def recordRateLimit_def defaultLimit_def)
  show ?thesis
    using a b c isRateLimited_unknown [of rl url tm] isRateLimited_exhausted [of rl url s tm]
    by simp
qed

theorem isRateLimited_penalty_expiry_witness:
  "recordRateLimit Map.empty 0 ''hook'' 1 ''hook''
     = Some \<lparr>remaining = Num 0, resetAt = Num 1000, isLimited = True, retryAfter = Num 1\<rparr>
   \<and> js_le (Num 1000) (Num 1000)
   \<and> fst (isRateLimited (recordRateLimit Map.empty 0 ''hook'' 1) 999 ''hook'') = True
   \<and> isRateLimited (recordRateLimit Map.empty 0 ''hook'' 1) 1000 ''hook''
       = (False, (recordRateLimit Map.empty 0 ''hook'' 1)(''hook'' \<mapsto>
            \<lparr>remaining = Num 30, resetAt = Num 1000, isLimited = False, retryAfter = Num 1\<rparr>))
   \<and> fst (isRateLimited
            (snd (isRateLimited (recordRateLimit Map.empty 0 ''hook'' 1) 1000 ''hook''))
            1001 ''hook'') = False
   \<and> 0 + 1 * 1000 \<le> (1000::int)
   \<and> fst (isRateLimited (recordRateLimit Map.empty 0 ''hook'' 1) 1000 ''hook'') = False
   \<and> isRateLimited Map.empty 0 ''hook'' = (False, Map.empty)
   \<and> js_le (Num 0) (Num 0)
   \<and> isRateLimited
        [''hook'' \<mapsto>
           \<lparr>remaining = Num 0, resetAt = Num 1000, isLimited = False, retryAfter = Num 0\<rparr>]
        5000 ''hook''
       = (True,
          [''hook'' \<mapsto>
             \<lparr>remaining = Num 0, resetAt = Num 1000, isLimited = False, retryAfter = Num 0\<rparr>])"
proof -
  let ?rl = "recordRateLimit Map.empty 0 ''hook'' 1"
  let ?s = "\<lparr>remaining = Num 0, resetAt = Num 1000, isLimited = True, retryAfter = Num 1\<rparr>"
  have r: "?rl ''hook'' = Some ?s"
    by (simp add: recordRateLimit_def)
  have p: "isLimited ?s" "js_le (resetAt ?s) (Num 1000)"
    by simp_all
  have b: "fst (isRateLimited ?rl 999 ''hook'') = True"
    by (simp add: isRateLimited_def recordRateLimit_def)
  note t = isRateLimited_penalty_expiry [of ?rl "''hook''" ?s 1000 1001 0 1]
  from t r p have a: "isRateLimited ?rl 1000 ''hook''
      = (False, ?rl(''hook'' \<mapsto> ?s\<lparr>isLimited := False, remaining := Num 30\<rparr>))"
    by blast
  from t r p have "isRateLimited (snd (isRateLimited ?rl 1000 ''hook'')) 1001 ''hook''
      = (False, snd (isRateLimited ?rl 1000 ''hook''))"
    by blast
  then have c: "fst (isRateLimited (snd (isRateLimited ?rl 1000 ''hook'')) 1001 ''hook'')
      = False"
    by simp
  from isRateLimited_penalty_expiry [of Map.empty "''hook''" ?s 0 0 0 0]
  have u: "isRateLimited Map.empty 0 ''hook'' = (False, Map.empty)"
    by simp
  from isRateLimited_penalty_expiry [of Map.empty "''hook''" ?s 1000 0 0 1]
  have d: "fst (isRateLimited (recordRateLimit Map.empty 0 ''hook'' 1) 1000 ''hook'') = False"
    by simp
  let ?w = "\<lparr>remaining = Num 0, resetAt = Num 1000, isLimited = False, retryAfter = Num 0\<rparr>"
  from isRateLimited_penalty_expiry [of "[''hook'' \<mapsto> ?w]" "''hook''" ?w 5000 0 0 0]
  have x: "isRateLimited [''hook'' \<mapsto> ?w] 5000 ''hook'' = (True, [''hook'' \<mapsto> ?w])"
    by simp
  from r b a c u d x show ?thesis by simp
qed

text \<open>
  A success response with \<open>x-ratelimit-remaining: 0\<close> and
  \<open>x-ratelimit-reset-after: 1\<close>, recorded at time 0, stores a state with no requests
  remaining, not limited, that resets at time 1000.  At time 5000 \<open>isRateLimited\<close>
  still answers true and leaves the state as it is, while \<open>getWaitTime\<close> answers 0.
\<close>

theorem isRateLimited_exhausted_window:
  "recordSuccess decimalBuiltins Map.empty 0 ''hook'' exhaustedHeaders ''hook''
     = Some \<lparr>remaining = Num 0, resetAt = Num 1000, isLimited = False, retryAfter = Num 0\<rparr>
   \<and> isRateLimited (recordSuccess decimalBuiltins Map.empty 0 ''hook'' exhaustedHeaders)
        5000 ''hook''
     = (True, recordSuccess decimalBuiltins Map.empty 0 ''hook'' exhaustedHeaders)
   \<and> getWaitTime (recordSuccess decimalBuiltins Map.empty 0 ''hook'' exhaustedHeaders)
        5000 ''hook''
     = Num 0"
  by (simp add: recordSuccess_def exhaustedHeaders_def header_def decimalBuiltins_def
      parseDecimal_def digitOf_def isRateLimited_def getWaitTime_def)

section \<open>Properties of the transport\<close>

subsection \<open>What one attempt changes\<close>

lemma sleep_frame [simp]:
  "requests (sleep ms st) = requests st" "emitted (sleep ms st) = emitted st"
  "callbacks (sleep ms st) = callbacks st" "rateLimiter (sleep ms st) = rateLimiter st"
  by (simp_all add: sleep_def)

lemma awaitRateLimit_frame [simp]:
  "requests (awaitRateLimit url st) = requests st"
  "emitted (awaitRateLimit url st) = emitted st"
  "callbacks (awaitRateLimit url st) = callbacks st"
  by (simp_all add: awaitRateLimit_def Let_def split: prod.splits jsnum.splits)

lemma awaitRateLimit_fresh: "rateLimiter st url = None \<Longrightarrow> awaitRateLimit url st = st"
  by (simp add: awaitRateLimit_def isRateLimited_def)

lemma awaitRateLimit_expired:
  assumes "rateLimiter st url = Some s" "isLimited s" "resetAt s = Num ra" "ra \<le> now st"
  shows "awaitRateLimit url st
           = st\<lparr>rateLimiter :=
                 (rateLimiter st)(url \<mapsto> s\<lparr>isLimited := False, remaining := Num 30\<rparr>)\<rparr>"
  using assms by (simp add: awaitRateLimit_def isRateLimited_def defaultLimit_def)

lemma axios_post_frame [simp]:
  "emitted (snd (axios_post srv url msg st)) = emitted st"
  "callbacks (snd (axios_post srv url msg st)) = callbacks st"
  "rateLimiter (snd (axios_post srv url msg st)) = rateLimiter st"
  "now (snd (axios_post srv url msg st)) = now st"
  "sleeps (snd (axios_post srv url msg st)) = sleeps st"
  "requests (snd (axios_post srv url msg st))
     = requests st @ [\<lparr>req_url = url, req_content = msg, req_time = now st\<rparr>]"
  by (simp_all add: axios_post_def Let_def)

lemma axios_post_reply:
  "srv (requests st) \<lparr>req_url = url, req_content = msg, req_time = now st\<rparr> = Reply r \<Longrightarrow>
   fst (axios_post srv url msg st)
     = (if 200 \<le> r_status r \<and> r_status r < 300 then Resolved r else AxiosError (Some r))"
  by (simp add: axios_post_def Let_def)

lemma attemptOnce_frame:
  "emitted (stateOf (attemptOnce P t srv url msg k st)) = emitted st
   \<and> callbacks (stateOf (attemptOnce P t srv url msg k st)) = callbacks st"
proof -
  obtain res st1 where p: "axios_post srv url msg (awaitRateLimit url st) = (res, st1)"
    by (cases "axios_post srv url msg (awaitRateLimit url st)")
  have "emitted st1 = emitted st" "callbacks st1 = callbacks st"
    using axios_post_frame(1,2) [of srv url msg "awaitRateLimit url st"] p by simp_all
  then show ?thesis
    by (simp add: attemptOnce_def p Let_def split: post_result.splits option.splits)
qed

lemma attemptOnce_reply:
  assumes "srv (requests st)
      \<lparr>req_url = url, req_content = msg, req_time = now (awaitRateLimit url st)\<rparr> = Reply r"
  shows "attemptOnce P t srv url msg k st =
     (let st1 = snd (axios_post srv url msg (awaitRateLimit url st)) in
      if 200 \<le> r_status r \<and> r_status r < 300 then
        Return True
          (st1\<lparr>rateLimiter := recordSuccess P (rateLimiter st1) (now st1) url (r_headers r)\<rparr>)
      else if r_status r = 429 then
        NextAttempt (sleep (getRetryAfter P (Some r) * 1000)
          (st1\<lparr>rateLimiter :=
                recordRateLimit (rateLimiter st1) (now st1) url (getRetryAfter P (Some r))\<rparr>))
      else if 400 \<le> r_status r \<and> r_status r < 500 then Return False st1
      else NextAttempt (sleep (retryDelay t * 2 ^ k) st1))"
proof -
  obtain res st1 where p: "axios_post srv url msg (awaitRateLimit url st) = (res, st1)"
    by (cases "axios_post srv url msg (awaitRateLimit url st)")
  have res: "res = (if 200 \<le> r_status r \<and> r_status r < 300 then Resolved r
                    else AxiosError (Some r))"
    using axios_post_reply [of srv "awaitRateLimit url st" url msg r] assms p by simp
  show ?thesis
    by (simp add: attemptOnce_def p res Let_def)
qed

subsection \<open>Events and callbacks are untouched by delivery\<close>

lemma sendToWebhook_loop_frame:
  "emitted (snd (sendToWebhook_loop P t srv url msg k st)) = emitted st
   \<and> callbacks (snd (sendToWebhook_loop P t srv url msg k st)) = callbacks st"
proof (induction P t srv url msg k st rule: sendToWebhook_loop.induct)
  case (1 P t srv url msg k st)
  show ?case
  proof (cases "int k < maxRetries t")
    case False
    then show ?thesis by (simp add: sendToWebhook_loop.simps)
  next
    case True
    show ?thesis
    proof (cases "attemptOnce P t srv url msg k st")
      case (Return ok st')
      with True attemptOnce_frame [of P t srv url msg k st] show ?thesis
        by (subst (1 2) sendToWebhook_loop.simps) simp
    next
      case (NextAttempt st')
      with True attemptOnce_frame [of P t srv url msg k st] "1.IH" [OF True NextAttempt]
      show ?thesis
        by (subst (1 2) sendToWebhook_loop.simps) simp
    qed
  qed
qed

lemma tryWebhooks_frame:
  "emitted (snd (tryWebhooks P t srv urls msg st)) = emitted st
   \<and> callbacks (snd (tryWebhooks P t srv urls msg st)) = callbacks st"
proof (induction urls arbitrary: st)
  case Nil
  then show ?case by simp
next
  case (Cons u us)
  obtain ok st' where r: "sendToWebhook P t srv u msg st = (ok, st')"
    by (cases "sendToWebhook P t srv u msg st")
  with sendToWebhook_loop_frame [of P t srv u msg 0 st]
  have f: "emitted st' = emitted st" "callbacks st' = callbacks st"
    by (simp_all add: sendToWebhook_def)
  show ?case using r f Cons.IH [of st'] by (cases ok) simp_all
qed

subsection \<open>Listeners and error reports are untouched by delivery\<close>

lemma attemptOnce_reports:
  "errorListeners (stateOf (attemptOnce P t srv url msg k st)) = errorListeners st
   \<and> errors (stateOf (attemptOnce P t srv url msg k st)) = errors st
   \<and> unhandled (stateOf (attemptOnce P t srv url msg k st)) = unhandled st"
  by (simp add: attemptOnce_def axios_post_def awaitRateLimit_def sleep_def Let_def
      split: prod.splits post_result.splits option.splits reply.splits jsnum.splits)

lemma sendToWebhook_loop_reports:
  "errorListeners (snd (sendToWebhook_loop P t srv url msg k st)) = errorListeners st
   \<and> errors (snd (sendToWebhook_loop P t srv url msg k st)) = errors st
   \<and> unhandled (snd (sendToWebhook_loop P t srv url msg k st)) = unhandled st"
proof (induction P t srv url msg k st rule: sendToWebhook_loop.induct)
  case (1 P t srv url msg k st)
  show ?case
  proof (cases "int k < maxRetries t")
    case False
    then show ?thesis by (simp add: sendToWebhook_loop.simps)
  next
    case True
    show ?thesis
    proof (cases "attemptOnce P t srv url msg k st")
      case (Return ok st')
      with True attemptOnce_reports [of P t srv url msg k st] show ?thesis
        by (subst (1 2 3) sendToWebhook_loop.simps) simp
    next
      case (NextAttempt st')
      with True attemptOnce_reports [of P t srv url msg k st] "1.IH" [OF True NextAttempt]
      show ?thesis
        by (subst (1 2 3) sendToWebhook_loop.simps) simp
    qed
  qed
qed

lemma tryWebhooks_reports:
  "errorListeners (snd (tryWebhooks P t srv urls msg st)) = errorListeners st
   \<and> errors (snd (tryWebhooks P t srv urls msg st)) = errors st
   \<and> unhandled (snd (tryWebhooks P t srv urls msg st)) = unhandled st"
proof (induction urls arbitrary: st)
  case Nil
  then show ?case by simp
next
  case (Cons u us)
  obtain ok st' where r: "sendToWebhook P t srv u msg st = (ok, st')"
    by (cases "sendToWebhook P t srv u msg st")
  with sendToWebhook_loop_reports [of P t srv u msg 0 st]
  have f: "errorListeners st' = errorListeners st" "errors st' = errors st"
    "unhandled st' = unhandled st"
    by (simp_all add: sendToWebhook_def)
  show ?case using r f Cons.IH [of st'] by (cases ok) simp_all
qed

subsection \<open>Endpoints that fail, refuse, succeed or rate limit\<close>

lemma loop_server_errors:
  assumes srv: "\<forall>h req. req_url req = A \<longrightarrow> (\<exists>r. srv h req = Reply r \<and> r_status r = 500)"
  shows "fst (sendToWebhook_loop P t srv A msg k st) = False
     \<and> map req_url (requests (snd (sendToWebhook_loop P t srv A msg k st)))
         = map req_url (requests st) @ replicate (nat (maxRetries t) - k) A
     \<and> (rateLimiter st A = None \<longrightarrow>
          rateLimiter (snd (sendToWebhook_loop P t srv A msg k st)) = rateLimiter st
          \<and> sleeps (snd (sendToWebhook_loop P t srv A msg k st))
              = sleeps st @ map (\<lambda>i. retryDelay t * 2 ^ i) [k ..< nat (maxRetries t)])"
  using srv
proof (induction P t srv A msg k st rule: sendToWebhook_loop.induct)
  case (1 P t srv A msg k st)
  show ?case
  proof (cases "int k < maxRetries t")
    case False
    then have "nat (maxRetries t) - k = 0" "[k ..< nat (maxRetries t)] = []" by simp_all
    with False show ?thesis by (simp add: sendToWebhook_loop.simps)
  next
    case True
    let ?st1 = "snd (axios_post srv A msg (awaitRateLimit A st))"
    let ?st2 = "sleep (retryDelay t * 2 ^ k) ?st1"
    from "1.prems" have "\<exists>r. srv (requests st)
        \<lparr>req_url = A, req_content = msg, req_time = now (awaitRateLimit A st)\<rparr> = Reply r
        \<and> r_status r = 500" by simp
    then obtain r where r: "srv (requests st)
        \<lparr>req_url = A, req_content = msg, req_time = now (awaitRateLimit A st)\<rparr> = Reply r"
      "r_status r = 500" by blast
    from attemptOnce_reply [where srv = srv and st = st and url = A and msg = msg and r = r
      and P = P and t = t and k = k] r
    have att: "attemptOnce P t srv A msg k st = NextAttempt ?st2" by (simp add: Let_def)
    have unf: "sendToWebhook_loop P t srv A msg k st
                 = sendToWebhook_loop P t srv A msg (Suc k) ?st2"
      using True att by (subst sendToWebhook_loop.simps) simp
    note IH = "1.IH" [OF True att "1.prems"]
    from True have k: "nat (maxRetries t) - k = Suc (nat (maxRetries t) - Suc k)"
      and up: "[k ..< nat (maxRetries t)] = k # [Suc k ..< nat (maxRetries t)]"
      by (simp_all add: upt_conv_Cons)
    have fresh: "rateLimiter ?st2 = rateLimiter st
                 \<and> sleeps ?st2 = sleeps st @ [retryDelay t * 2 ^ k]"
      if "rateLimiter st A = None"
      using awaitRateLimit_fresh [OF that] by (simp add: sleep_def)
    show ?thesis
      unfolding unf using IH fresh
      by (simp add: k up replicate_append_same)
  qed
qed

lemma sendToWebhook_ok_first:
  assumes mr: "0 < maxRetries t"
    and srv: "\<forall>h req. req_url req = B \<longrightarrow> (\<exists>r. srv h req = Reply r \<and> r_status r = 200)"
  shows "fst (sendToWebhook P t srv B msg st) = True
     \<and> requests (snd (sendToWebhook P t srv B msg st))
         = requests st @ [\<lparr>req_url = B, req_content = msg,
                             req_time = now (awaitRateLimit B st)\<rparr>]
     \<and> sleeps (snd (sendToWebhook P t srv B msg st)) = sleeps (awaitRateLimit B st)"
proof -
  from srv have "\<exists>r. srv (requests st)
        \<lparr>req_url = B, req_content = msg, req_time = now (awaitRateLimit B st)\<rparr> = Reply r
        \<and> r_status r = 200" by simp
  then obtain r where r: "srv (requests st)
        \<lparr>req_url = B, req_content = msg, req_time = now (awaitRateLimit B st)\<rparr> = Reply r"
      "r_status r = 200" by blast
  from attemptOnce_reply [where srv = srv and st = st and url = B and msg = msg and r = r
      and P = P and t = t and k = 0] r
  have "attemptOnce P t srv B msg 0 st
     = Return True ((snd (axios_post srv B msg (awaitRateLimit B st)))
         \<lparr>rateLimiter := recordSuccess P (rateLimiter (awaitRateLimit B st))
             (now (awaitRateLimit B st)) B (r_headers r)\<rparr>)"
    by (simp add: Let_def)
  with mr show ?thesis
    by (simp add: sendToWebhook_def sendToWebhook_loop.simps)
qed

lemma sendToWebhook_client_error:
  assumes mr: "0 < maxRetries t"
    and srv: "\<forall>req. req_url req = url \<longrightarrow> srv (requests st) req = Reply r"
    and st: "400 \<le> r_status r" "r_status r < 500" "r_status r \<noteq> 429"
  shows "sendToWebhook P t srv url msg st
           = (False, snd (axios_post srv url msg (awaitRateLimit url st)))"
proof -
  from srv have "srv (requests st)
      \<lparr>req_url = url, req_content = msg, req_time = now (awaitRateLimit url st)\<rparr> = Reply r"
    by simp
  from attemptOnce_reply [where srv = srv and st = st and url = url and msg = msg and r = r
      and P = P and t = t and k = 0] this st
  have "attemptOnce P t srv url msg 0 st
          = Return False (snd (axios_post srv url msg (awaitRateLimit url st)))"
    by (simp add: Let_def)
  with mr show ?thesis
    by (simp add: sendToWebhook_def sendToWebhook_loop.simps)
qed

lemma getRetryAfter_header:
  "header (r_headers r) ''retry-after'' = Some h \<Longrightarrow> parseFloat P h = Num n \<Longrightarrow>
   getRetryAfter P (Some r) = n"
  by (simp add: getRetryAfter_def)

lemma getRetryAfter_body:
  "(case header (r_headers r) ''retry-after'' of None \<Rightarrow> True | Some h \<Rightarrow> parseFloat P h = NaN)
   \<Longrightarrow> getProp (r_data r) ''retry_after'' = JNumber (Num n) \<Longrightarrow> n \<noteq> 0 \<Longrightarrow>
   getRetryAfter P (Some r) = n"
  by (cases "r_data r") (auto simp: getRetryAfter_def split: option.splits)

lemma getRetryAfter_default:
  "(case header (r_headers r) ''retry-after'' of None \<Rightarrow> True | Some h \<Rightarrow> parseFloat P h = NaN)
   \<Longrightarrow> \<forall>n. getProp (r_data r) ''retry_after'' = JNumber (Num n) \<longrightarrow> n = 0 \<Longrightarrow>
   getRetryAfter P (Some r) = 2"
  by (auto simp: getRetryAfter_def split: option.splits jsval.splits jsnum.splits)

lemma loop_rate_limited:
  assumes "int k < maxRetries t"
    and "\<forall>req. req_url req = url \<longrightarrow> srv (requests st) req = Reply r"
    and "r_status r = 429"
  shows "sendToWebhook_loop P t srv url msg k st
     = sendToWebhook_loop P t srv url msg (Suc k)
         (sleep (getRetryAfter P (Some r) * 1000)
           ((snd (axios_post srv url msg (awaitRateLimit url st)))
              \<lparr>rateLimiter := recordRateLimit (rateLimiter (awaitRateLimit url st))
                  (now (awaitRateLimit url st)) url (getRetryAfter P (Some r))\<rparr>))"
proof -
  from assms(2) have "srv (requests st)
      \<lparr>req_url = url, req_content = msg, req_time = now (awaitRateLimit url st)\<rparr> = Reply r"
    by simp
  from attemptOnce_reply [where srv = srv and st = st and url = url and msg = msg and r = r
      and P = P and t = t and k = k] this assms(3)
  have "attemptOnce P t srv url msg k st
     = NextAttempt (sleep (getRetryAfter P (Some r) * 1000)
           ((snd (axios_post srv url msg (awaitRateLimit url st)))
              \<lparr>rateLimiter := recordRateLimit (rateLimiter (awaitRateLimit url st))
                  (now (awaitRateLimit url st)) url (getRetryAfter P (Some r))\<rparr>))"
    by (simp add: Let_def)
  with assms(1) show ?thesis
    by (subst sendToWebhook_loop.simps) simp
qed

lemma rate_limited_then_ok:
  assumes mr: "2 \<le> maxRetries t"
    and first: "\<forall>req. req_url req = url \<longrightarrow> srv (requests st) req = Reply r1"
    and r1: "r_status r1 = 429" "r_headers r1 ''retry-after'' = Some ''1''"
    and pf: "parseFloat P ''1'' = Num 1"
    and second: "\<forall>h req. length h = Suc (length (requests st)) \<and> req_url req = url \<longrightarrow>
                   (\<exists>r. srv h req = Reply r \<and> r_status r = 200)"
  shows "fst (sendToWebhook P t srv url msg st) = True
     \<and> map req_url (requests (snd (sendToWebhook P t srv url msg st)))
         = map req_url (requests st) @ [url, url]
     \<and> sleeps (snd (sendToWebhook P t srv url msg st))
         = sleeps (awaitRateLimit url st) @ [1000]"
proof -
  let ?a = "awaitRateLimit url st"
  let ?st1 = "snd (axios_post srv url msg ?a)"
  have ra: "getRetryAfter P (Some r1) = 1"
    using r1(2) pf by (simp add: getRetryAfter_def header_def)
  let ?s = "\<lparr>remaining = Num 0, resetAt = Num (now ?a + 1000), isLimited = True,
             retryAfter = Num 1\<rparr>"
  let ?st2 = "sleep 1000 (?st1\<lparr>rateLimiter := recordRateLimit (rateLimiter ?a) (now ?a) url 1\<rparr>)"
  from mr have k0: "int 0 < maxRetries t" and k1: "int (Suc 0) < maxRetries t" by simp_all
  have step1: "sendToWebhook_loop P t srv url msg 0 st
                 = sendToWebhook_loop P t srv url msg (Suc 0) ?st2"
    using loop_rate_limited [where k = 0 and t = t and url = url and srv = srv and st = st
        and r = r1 and P = P and msg = msg] k0 first r1(1)
    by (simp add: ra)
  have lim2: "rateLimiter ?st2 url = Some ?s" by (simp add: recordRateLimit_def)
  have now2: "now ?st2 = now ?a + 1000" by (simp add: sleep_def)
  have aw2: "awaitRateLimit url ?st2
      = ?st2\<lparr>rateLimiter :=
              (rateLimiter ?st2)(url \<mapsto> ?s\<lparr>isLimited := False, remaining := Num 30\<rparr>)\<rparr>"
    by (rule awaitRateLimit_expired [OF lim2, where ra = "now ?a + 1000"])
      (simp_all add: now2)
  have req2: "requests ?st2
                = requests st @ [\<lparr>req_url = url, req_content = msg, req_time = now ?a\<rparr>]"
    by simp
  from second have "\<exists>r. srv (requests ?st2)
        \<lparr>req_url = url, req_content = msg, req_time = now (awaitRateLimit url ?st2)\<rparr> = Reply r
        \<and> r_status r = 200" by (simp only: req2) simp
  then obtain r2 where r2: "srv (requests ?st2)
        \<lparr>req_url = url, req_content = msg, req_time = now (awaitRateLimit url ?st2)\<rparr>
          = Reply r2"
      "r_status r2 = 200" by blast
  let ?st3 = "snd (axios_post srv url msg (awaitRateLimit url ?st2))"
  from attemptOnce_reply [where srv = srv and st = ?st2 and url = url and msg = msg
      and r = r2 and P = P and t = t and k = "Suc 0"] r2
  have att2: "attemptOnce P t srv url msg (Suc 0) ?st2
     = Return True (?st3\<lparr>rateLimiter :=
         recordSuccess P (rateLimiter ?st3) (now ?st3) url (r_headers r2)\<rparr>)"
    by (simp add: Let_def)
  have step2: "sendToWebhook_loop P t srv url msg (Suc 0) ?st2
     = (True, ?st3\<lparr>rateLimiter :=
         recordSuccess P (rateLimiter ?st3) (now ?st3) url (r_headers r2)\<rparr>)"
    using k1 att2 by (subst sendToWebhook_loop.simps) simp
  have sl: "sleeps (awaitRateLimit url ?st2) = sleeps ?a @ [1000]"
    unfolding aw2 by (simp add: sleep_def)
  show ?thesis
    unfolding sendToWebhook_def step1 step2
    by (simp add: sl)
qed

subsection \<open>The claims about delivery\<close>

text \<open>
  C4.  On a 429 response the retry delay is the \<open>Retry-After\<close> header when it is
  present and parses as a number, else the nonzero numeric \<open>retry_after\<close> field of the
  response body, else 2 seconds.  The attempt records that delay in the rate limiter
  (no requests remaining, limited until \<open>now + delay * 1000\<close>), sleeps for the delay and
  goes on with the next attempt index, so the 429 uses up one attempt of the
  endpoint's budget.  With a budget of at least two attempts, a single endpoint that
  answers 429 with \<open>Retry-After: 1\<close> and then 200 gives a successful dispatch with
  exactly two requests, one second apart.
\<close>

theorem rate_limit_retry:
  assumes "2 \<le> maxRetries t" and "webhookUrls t = [url]"
    and "\<forall>req. req_url req = url \<longrightarrow> srv (requests st) req = Reply r1"
    and "r_status r1 = 429" and "r_headers r1 ''retry-after'' = Some ''1''"
    and "parseFloat P ''1'' = Num 1"
    and "\<forall>h req. length h = Suc (length (requests st)) \<and> req_url req = url \<longrightarrow>
           (\<exists>r. srv h req = Reply r \<and> r_status r = 200)"
  shows "(\<forall>r h n. header (r_headers r) ''retry-after'' = Some h \<and> parseFloat P h = Num n
            \<longrightarrow> getRetryAfter P (Some r) = n)
     \<and> (\<forall>r n. (case header (r_headers r) ''retry-after'' of
                  None \<Rightarrow> True | Some h \<Rightarrow> parseFloat P h = NaN)
            \<and> getProp (r_data r) ''retry_after'' = JNumber (Num n) \<and> n \<noteq> 0
            \<longrightarrow> getRetryAfter P (Some r) = n)
     \<and> (\<forall>r. (case header (r_headers r) ''retry-after'' of
                None \<Rightarrow> True | Some h \<Rightarrow> parseFloat P h = NaN)
            \<and> (\<forall>n. getProp (r_data r) ''retry_after'' = JNumber (Num n) \<longrightarrow> n = 0)
            \<longrightarrow> getRetryAfter P (Some r) = 2)
     \<and> (\<forall>k. int k < maxRetries t \<longrightarrow>
           sendToWebhook_loop P t srv url msg k st
             = sendToWebhook_loop P t srv url msg (Suc k)
                 (sleep (getRetryAfter P (Some r1) * 1000)
                   ((snd (axios_post srv url msg (awaitRateLimit url st)))
                      \<lparr>rateLimiter := recordRateLimit (rateLimiter (awaitRateLimit url st))
                          (now (awaitRateLimit url st)) url (getRetryAfter P (Some r1))\<rparr>)))
     \<and> recordRateLimit rl tm url delay url
         = Some \<lparr>remaining = Num 0, resetAt = Num (tm + delay * 1000), isLimited = True,
                 retryAfter = Num delay\<rparr>
     \<and> fst (sendToDiscord P t srv info st) = Inr ()
     \<and> map req_url (requests (snd (sendToDiscord P t srv info st)))
         = map req_url (requests st) @ [url, url]
     \<and> sleeps (snd (sendToDiscord P t srv info st)) = sleeps (awaitRateLimit url st) @ [1000]"
proof -
  let ?msg = "formatMessage t info"
  obtain ok st' where r: "sendToWebhook P t srv url ?msg st = (ok, st')"
    by (cases "sendToWebhook P t srv url ?msg st")
  from rate_limited_then_ok [OF assms(1,3,4,5,6,7), of ?msg] r
  have s: "ok" "map req_url (requests st') = map req_url (requests st) @ [url, url]"
    "sleeps st' = sleeps (awaitRateLimit url st) @ [1000]"
    by simp_all
  have d: "sendToDiscord P t srv info st = (Inr (), st')"
    using r s(1) assms(2) by (simp add: sendToDiscord_def)
  have l: "sendToWebhook_loop P t srv url msg k st
             = sendToWebhook_loop P t srv url msg (Suc k)
                 (sleep (getRetryAfter P (Some r1) * 1000)
                   ((snd (axios_post srv url msg (awaitRateLimit url st)))
                      \<lparr>rateLimiter := recordRateLimit (rateLimiter (awaitRateLimit url st))
                          (now (awaitRateLimit url st)) url (getRetryAfter P (Some r1))\<rparr>))"
    if "int k < maxRetries t" for k
    using that assms(3,4) by (rule loop_rate_limited)
  show ?thesis
    using getRetryAfter_header [where P = P] getRetryAfter_body [where P = P]
      getRetryAfter_default [where P = P] l s(2,3)
    by (simp add: d recordRateLimit_def)
qed

theorem rate_limit_retry_witness:
  "2 \<le> maxRetries (transportFor [''hook''])
   \<and> webhookUrls (transportFor [''hook'']) = [''hook'']
   \<and> r_status retryAfterReply = 429
   \<and> parseFloat decimalBuiltins ''1'' = Num 1
   \<and> getRetryAfter decimalBuiltins (Some retryAfterReply) = 1
   \<and> fst (sendToDiscord decimalBuiltins (transportFor [''hook'']) rateLimitingServer
            sampleEntry initState) = Inr ()
   \<and> map req_url (requests (snd (sendToDiscord decimalBuiltins (transportFor [''hook''])
            rateLimitingServer sampleEntry initState))) = [''hook'', ''hook'']
   \<and> sleeps (snd (sendToDiscord decimalBuiltins (transportFor [''hook''])
            rateLimitingServer sampleEntry initState)) = [1000]"
proof -
  have pf: "parseFloat decimalBuiltins ''1'' = Num 1"
    by (simp add: decimalBuiltins_def parseDecimal_def digitOf_def)
  have hd: "header (r_headers retryAfterReply) ''retry-after'' = Some ''1''"
    by (simp add: header_def retryAfterReply_def)
  have fresh: "awaitRateLimit ''hook'' initState = initState"
    by (rule awaitRateLimit_fresh) (simp add: initState_def)
  have first: "\<forall>req. req_url req = ''hook'' \<longrightarrow>
      rateLimitingServer (requests initState) req = Reply retryAfterReply"
    by (simp add: rateLimitingServer_def initState_def)
  have second: "\<forall>h req. length h = Suc (length (requests initState)) \<and> req_url req = ''hook''
      \<longrightarrow> (\<exists>r. rateLimitingServer h req = Reply r \<and> r_status r = 200)"
    by (auto simp: rateLimitingServer_def plainReply_def)
  have mr: "2 \<le> maxRetries (transportFor [''hook''])"
    and urls: "webhookUrls (transportFor [''hook'']) = [''hook'']"
    by (simp_all add: transportFor_def newTransport_def)
  have st: "r_status retryAfterReply = 429"
    and h: "r_headers retryAfterReply ''retry-after'' = Some ''1''"
    by (simp_all add: retryAfterReply_def)
  from rate_limit_retry [where t = "transportFor [''hook'']" and url = "''hook''"
      and srv = rateLimitingServer and st = initState and ?r1.0 = retryAfterReply
      and P = decimalBuiltins and info = sampleEntry] mr urls first st h pf second
  have "getRetryAfter decimalBuiltins (Some retryAfterReply) = 1
     \<and> fst (sendToDiscord decimalBuiltins (transportFor [''hook'']) rateLimitingServer
            sampleEntry initState) = Inr ()
     \<and> map req_url (requests (snd (sendToDiscord decimalBuiltins (transportFor [''hook''])
            rateLimitingServer sampleEntry initState))) = [''hook'', ''hook'']
     \<and> sleeps (snd (sendToDiscord decimalBuiltins (transportFor [''hook''])
            rateLimitingServer sampleEntry initState)) = [1000]"
    using hd pf by (simp add: fresh) (simp add: initState_def)
  with mr urls st pf show ?thesis by simp
qed

text \<open>
  C5.  Endpoints are tried in list order.  For the list \<open>[A, B]\<close>, when every request
  to \<open>A\<close> is answered 500 and every request to \<open>B\<close> is answered 200 and at least one
  attempt is allowed, the dispatch succeeds after exactly \<open>maxRetries\<close> requests to
  \<open>A\<close> followed by one request to \<open>B\<close>; when the rate limiter holds no state for
  the two endpoints, the delays slept are exactly the backoff \<open>retryDelay * 2 ^ i\<close>
  after the \<open>i\<close>-th attempt against \<open>A\<close>.
\<close>

theorem failover_in_order:
  assumes mr: "0 < maxRetries t"
    and urls: "webhookUrls t = [A, B]"
    and srvA: "\<forall>h req. req_url req = A \<longrightarrow> (\<exists>r. srv h req = Reply r \<and> r_status r = 500)"
    and srvB: "\<forall>h req. req_url req = B \<longrightarrow> (\<exists>r. srv h req = Reply r \<and> r_status r = 200)"
  shows "fst (sendToDiscord P t srv info st) = Inr ()
     \<and> map req_url (requests (snd (sendToDiscord P t srv info st)))
         = map req_url (requests st) @ replicate (nat (maxRetries t)) A @ [B]
     \<and> (rateLimiter st A = None \<and> rateLimiter st B = None \<longrightarrow>
          sleeps (snd (sendToDiscord P t srv info st))
            = sleeps st @ map (\<lambda>i. retryDelay t * 2 ^ i) [0 ..< nat (maxRetries t)])"
proof -
  let ?msg = "formatMessage t info"
  obtain okA stA where a: "sendToWebhook P t srv A ?msg st = (okA, stA)"
    by (cases "sendToWebhook P t srv A ?msg st")
  from loop_server_errors [OF srvA, of P t ?msg 0 st] a
  have A: "okA = False"
    "map req_url (requests stA) = map req_url (requests st) @ replicate (nat (maxRetries t)) A"
    "rateLimiter st A = None \<Longrightarrow> rateLimiter stA = rateLimiter st"
    "rateLimiter st A = None \<Longrightarrow>
       sleeps stA = sleeps st @ map (\<lambda>i. retryDelay t * 2 ^ i) [0 ..< nat (maxRetries t)]"
    by (simp_all add: sendToWebhook_def)
  obtain okB stB where b: "sendToWebhook P t srv B ?msg stA = (okB, stB)"
    by (cases "sendToWebhook P t srv B ?msg stA")
  from sendToWebhook_ok_first [OF mr srvB, of P ?msg stA] b
  have B: "okB = True"
    "requests stB = requests stA @ [\<lparr>req_url = B, req_content = ?msg,
        req_time = now (awaitRateLimit B stA)\<rparr>]"
    "sleeps stB = sleeps (awaitRateLimit B stA)"
    by simp_all
  have res: "sendToDiscord P t srv info st = (Inr (), stB)"
    using a b A(1) B(1) by (simp add: sendToDiscord_def urls)
  have sl: "sleeps stB = sleeps st @ map (\<lambda>i. retryDelay t * 2 ^ i) [0 ..< nat (maxRetries t)]"
    if "rateLimiter st A = None" "rateLimiter st B = None"
    using A(3,4) [OF that(1)] B(3) that(2) awaitRateLimit_fresh [of stA B] by simp
  show ?thesis
    using res A(2) B(2) sl by simp
qed

theorem failover_in_order_witness:
  "0 < maxRetries (transportFor [''A'', ''B''])
   \<and> failoverServer [] \<lparr>req_url = ''A'', req_content = [], req_time = 0\<rparr> = plainReply 500
   \<and> failoverServer [] \<lparr>req_url = ''B'', req_content = [], req_time = 0\<rparr> = plainReply 200
   \<and> fst (sendToDiscord decimalBuiltins (transportFor [''A'', ''B'']) failoverServer
            sampleEntry initState) = Inr ()
   \<and> map req_url (requests (snd (sendToDiscord decimalBuiltins (transportFor [''A'', ''B''])
            failoverServer sampleEntry initState))) = [''A'', ''A'', ''A'', ''B'']
   \<and> sleeps (snd (sendToDiscord decimalBuiltins (transportFor [''A'', ''B''])
            failoverServer sampleEntry initState)) = [1000, 2000, 4000]"
proof -
  have mr: "0 < maxRetries (transportFor [''A'', ''B''])"
    and urls: "webhookUrls (transportFor [''A'', ''B'']) = [''A'', ''B'']"
    by (simp_all add: transportFor_def newTransport_def)
  have srvA: "\<forall>h req. req_url req = ''A'' \<longrightarrow>
      (\<exists>r. failoverServer h req = Reply r \<and> r_status r = 500)"
    and srvB: "\<forall>h req. req_url req = ''B'' \<longrightarrow>
      (\<exists>r. failoverServer h req = Reply r \<and> r_status r = 200)"
    by (simp_all add: failoverServer_def plainReply_def)
  have n: "nat (maxRetries (transportFor [''A'', ''B''])) = 3"
    "retryDelay (transportFor [''A'', ''B'']) = 1000"
    by (simp_all add: transportFor_def newTransport_def)
  have fresh: "rateLimiter initState ''A'' = None \<and> rateLimiter initState ''B'' = None"
    "requests initState = []" "sleeps initState = []"
    by (simp_all add: initState_def)
  have ex: "failoverServer [] \<lparr>req_url = ''A'', req_content = [], req_time = 0\<rparr> = plainReply 500"
    "failoverServer [] \<lparr>req_url = ''B'', req_content = [], req_time = 0\<rparr> = plainReply 200"
    by (simp_all add: failoverServer_def)
  from failover_in_order [where t = "transportFor [''A'', ''B'']" and A = "''A''" and B = "''B''"
      and srv = failoverServer and P = decimalBuiltins and info = sampleEntry
      and st = initState] mr urls srvA srvB
  show ?thesis
    using mr ex by (simp add: n fresh eval_nat_numeral upt_rec)
qed

text \<open>
  C6.  When an attempt is made and the endpoint answers it with a 4xx status other than
  429, \<open>sendToWebhook\<close> returns false in the state reached right after that one
  request: one request sent, nothing slept after it, no retry.  The dispatcher then
  goes on with the next endpoint; with that endpoint alone in the list the dispatch
  fails after exactly one request.
\<close>

theorem client_error_not_retried:
  assumes "0 < maxRetries t"
    and "\<forall>req. req_url req = url \<longrightarrow> srv (requests st) req = Reply r"
    and "400 \<le> r_status r" "r_status r < 500" "r_status r \<noteq> 429"
  shows "sendToWebhook P t srv url msg st
           = (False, snd (axios_post srv url msg (awaitRateLimit url st)))
     \<and> requests (snd (sendToWebhook P t srv url msg st))
           = requests st @ [\<lparr>req_url = url, req_content = msg,
                               req_time = now (awaitRateLimit url st)\<rparr>]
     \<and> sleeps (snd (sendToWebhook P t srv url msg st)) = sleeps (awaitRateLimit url st)
     \<and> tryWebhooks P t srv (url # others) msg st
           = tryWebhooks P t srv others msg (snd (sendToWebhook P t srv url msg st))
     \<and> (webhookUrls t = [url] \<longrightarrow>
          fst (sendToDiscord P t srv info st) = Inl ''All Discord webhook URLs failed''
          \<and> length (requests (snd (sendToDiscord P t srv info st)))
              = length (requests st) + 1)"
proof -
  have a: "sendToWebhook P t srv url m st
           = (False, snd (axios_post srv url m (awaitRateLimit url st)))" for m
    using assms by (rule sendToWebhook_client_error)
  show ?thesis
    by (simp add: a sendToDiscord_def)
qed

theorem client_error_not_retried_witness:
  "0 < maxRetries (transportFor [''hook''])
   \<and> constServer 400 (requests initState)
       \<lparr>req_url = ''hook'', req_content = [], req_time = 0\<rparr> = plainReply 400
   \<and> fst (sendToWebhook decimalBuiltins (transportFor [''hook'']) (constServer 400) ''hook''
       ''alert'' initState) = False
   \<and> requests (snd (sendToWebhook decimalBuiltins (transportFor [''hook'']) (constServer 400)
       ''hook'' ''alert'' initState))
       = [\<lparr>req_url = ''hook'', req_content = ''alert'', req_time = 0\<rparr>]
   \<and> sleeps (snd (sendToWebhook decimalBuiltins (transportFor [''hook'']) (constServer 400)
       ''hook'' ''alert'' initState)) = []
   \<and> fst (sendToDiscord decimalBuiltins (transportFor [''hook'']) (constServer 400)
       sampleEntry initState) = Inl ''All Discord webhook URLs failed''
   \<and> length (requests (snd (sendToDiscord decimalBuiltins (transportFor [''hook''])
       (constServer 400) sampleEntry initState))) = 1"
proof -
  have mr: "0 < maxRetries (transportFor [''hook''])"
    and urls: "webhookUrls (transportFor [''hook'']) = [''hook'']"
    by (simp_all add: transportFor_def newTransport_def)
  have srv: "\<forall>req. req_url req = ''hook'' \<longrightarrow> constServer 400 (requests initState) req
      = Reply \<lparr>r_status = 400, r_headers = Map.empty, r_data = JUndefined\<rparr>"
    by (simp add: constServer_def plainReply_def)
  have fresh: "awaitRateLimit ''hook'' initState = initState"
    by (rule awaitRateLimit_fresh) (simp add: initState_def)
  from client_error_not_retried [where t = "transportFor [''hook'']" and url = "''hook''"
      and srv = "constServer 400" and st = initState and P = decimalBuiltins
      and msg = "''alert''" and others = Nil and info = sampleEntry
      and r = "\<lparr>r_status = 400, r_headers = Map.empty, r_data = JUndefined\<rparr>"] mr srv
  show ?thesis
    using mr urls by (simp add: fresh) (simp add: initState_def constServer_def plainReply_def)
qed



text \<open>
  C9.  For every log entry whose alert flag is unset or otherwise falsy, \<open>log\<close> sends
  no request, leaves the rate limiter, the clock and the delays slept as they were and
  emits no \<open>error\<close> event: it returns after invoking the completion callback once, the
  \<open>logged\<close> notification of the transport being its only other effect.
\<close>

theorem log_unflagged:
  "\<not> truthy (sendDiscordWebhook info) \<Longrightarrow>
   log P t srv info st
     = (Returned, st\<lparr>emitted := emitted st @ [Logged info], callbacks := callbacks st + 1\<rparr>)
   \<and> requests (snd (log P t srv info st)) = requests st
   \<and> rateLimiter (snd (log P t srv info st)) = rateLimiter st
   \<and> sleeps (snd (log P t srv info st)) = sleeps st
   \<and> now (snd (log P t srv info st)) = now st"
  by (simp add: log_def Let_def)

theorem log_unflagged_witness:
  "\<not> truthy (sendDiscordWebhook quietEntry)
   \<and> \<not> truthy (JBool False)
   \<and> log decimalBuiltins (transportFor [''hook'']) (constServer 200) quietEntry initState
       = (Returned, initState\<lparr>emitted := [Logged quietEntry], callbacks := 1\<rparr>)
   \<and> requests (snd (log decimalBuiltins (transportFor [''hook'']) (constServer 200)
       quietEntry initState)) = []"
  using log_unflagged [of quietEntry decimalBuiltins "transportFor [''hook'']"
      "constServer 200" initState]
  by (simp add: quietEntry_def initState_def)



end
